theory Spec2Isabelle
  imports Main "HOL-Library.AList"
begin

text \<open>
  A model of the room protocol of the private chat application: the admission proxy
  (\<^verbatim>\<open>proxy.ts\<close>), the authentication hook (\<^verbatim>\<open>auth.ts\<close>) and the room and message
  handlers (\<^verbatim>\<open>route.ts\<close>), over a model of the Redis store and of the realtime channel
  they share. Definitions come first, each next to the lines it is taken from; the
  properties follow.
\<close>

section \<open>JavaScript values\<close>

text \<open>
  The handlers are TypeScript, but what the store client hands back is only known at run
  time: the membership field may arrive as an array, as a string, or as anything else a
  JSON document can hold, and the handlers test for each. The values are therefore
  modelled untyped. Numbers are only tested for truthiness, so integers suffice.
\<close>

datatype jsval =
    JUndefined
  | JNull
  | JBool bool
  | JNum int
  | JStr string
  | JArr "jsval list"
  | JObj "(string \<times> jsval) list"

text \<open>JavaScript truthiness (\<^verbatim>\<open>!v\<close> is its negation).\<close>

fun truthy :: "jsval \<Rightarrow> bool" where
  "truthy JUndefined = False"
| "truthy JNull = False"
| "truthy (JBool b) = b"
| "truthy (JNum n) = (n \<noteq> 0)"
| "truthy (JStr s) = (s \<noteq> [])"
| "truthy (JArr xs) = True"
| "truthy (JObj kvs) = True"

text \<open>
  \<^verbatim>\<open>JSON.parse\<close> and \<^verbatim>\<open>JSON.stringify\<close> belong to the language, not to the repository.
  Every definition that calls one of them takes it as a parameter: a parser is a function
  \<open>string \<Rightarrow> jsval option\<close>, with \<open>None\<close> for the \<^verbatim>\<open>SyntaxError\<close> it throws, and a printer
  is a function \<open>jsval \<Rightarrow> string\<close>.
\<close>

type_synonym parser = "string \<Rightarrow> jsval option"
type_synonym printer = "jsval \<Rightarrow> string"

section \<open>Normalising the membership field\<close>

text \<open>
  \<^verbatim>\<open>proxy.ts\<close>, lines 18 to 39: the admission path.
  A falsy field is the empty list; a string is parsed, an array result is taken, any other
  result is dropped, and a string that does not parse is kept as a single token; an array
  is taken as it is; everything else leaves the initial empty list.
\<close>

definition proxy_connected :: "parser \<Rightarrow> jsval \<Rightarrow> jsval list" where
  "proxy_connected parse v =
     (if \<not> truthy v then []
      else case v of
             JStr s \<Rightarrow> (case parse s of
                          Some (JArr xs) \<Rightarrow> xs
                        | Some _ \<Rightarrow> []
                        | None \<Rightarrow> [JStr s])
           | JArr xs \<Rightarrow> xs
           | _ \<Rightarrow> [])"

text \<open>
  \<^verbatim>\<open>auth.ts\<close>, lines 29 to 45: the session authenticator.
  An array is taken as it is; any other truthy value is parsed when it is a string and then
  taken only if the result is an array; a parse error is caught and gives the empty list.
\<close>

definition auth_connected :: "parser \<Rightarrow> jsval \<Rightarrow> jsval list" where
  "auth_connected parse v =
     (case v of
        JArr xs \<Rightarrow> xs
      | _ \<Rightarrow>
         (if truthy v then
            (case v of
               JStr s \<Rightarrow> (case parse s of
                            Some (JArr xs) \<Rightarrow> xs
                          | Some _ \<Rightarrow> []
                          | None \<Rightarrow> [])
             | _ \<Rightarrow> [])
          else []))"

text \<open>\<^verbatim>\<open>connected.includes(token)\<close> for a string token: only an equal string element counts.\<close>

definition includes_token :: "jsval list \<Rightarrow> string \<Rightarrow> bool" where
  "includes_token connected token = (JStr token \<in> set connected)"

section \<open>The keyed store\<close>

text \<open>
  The handlers share nothing but the Redis store and the realtime channel. A key holds a
  hash, a list or a stream, optionally with an expiry instant (in seconds of the store's clock); a
  key whose instant has passed no longer exists, whether or not it has been purged.
  The commands below follow the documented behaviour of the Redis commands the handlers
  call. A field or list entry is held as the value a read hands back; a write of a string
  stores that string. Every command that is carried out, and every event that is emitted,
  is appended to the \<open>effects\<close> log, which records their order.
\<close>

datatype rvalue =
    RHash "(string \<times> jsval) list"
  | RList "jsval list"
  | RStream "(string \<times> jsval) list"

record entry =
  content :: rvalue
  deadline :: "nat option"

datatype effect =
    Emit string string jsval
  | HSet string "(string \<times> jsval) list"
  | RPush string jsval
  | Expire string int
  | Del string

record world =
  kv :: "string \<Rightarrow> entry option"
  clock :: nat
  effects :: "effect list"

datatype error =
    AuthError string
  | Error string
  | ValidationError
  | WrongType

definition live :: "world \<Rightarrow> string \<Rightarrow> entry option" where
  "live w k =
     (case kv w k of
        None \<Rightarrow> None
      | Some e \<Rightarrow> (case deadline e of
                    None \<Rightarrow> Some e
                  | Some d \<Rightarrow> if clock w < d then Some e else None))"

definition redis_exists :: "world \<Rightarrow> string \<Rightarrow> bool" where
  "redis_exists w k = (live w k \<noteq> None)"

text \<open>\<^verbatim>\<open>TTL\<close>: \<open>-2\<close> for a key that does not exist, \<open>-1\<close> for a key without expiry.\<close>

definition redis_ttl :: "world \<Rightarrow> string \<Rightarrow> int" where
  "redis_ttl w k =
     (case live w k of
        None \<Rightarrow> - 2
      | Some e \<Rightarrow> (case deadline e of
                    None \<Rightarrow> - 1
                  | Some d \<Rightarrow> int d - int (clock w)))"

text \<open>
  \<^verbatim>\<open>EXPIRE\<close>: nothing happens to a key that does not exist; a timeout that is not positive
  deletes the key; otherwise the expiry instant is replaced.
\<close>

definition redis_expire :: "world \<Rightarrow> string \<Rightarrow> int \<Rightarrow> world" where
  "redis_expire w k secs =
     (let w' = w\<lparr>effects := effects w @ [Expire k secs]\<rparr> in
      case live w k of
        None \<Rightarrow> w'
      | Some e \<Rightarrow>
          if secs \<le> 0 then w'\<lparr>kv := (kv w)(k := None)\<rparr>
          else w'\<lparr>kv := (kv w)(k \<mapsto> e\<lparr>deadline := Some (clock w + nat secs)\<rparr>)\<rparr>)"

definition redis_del :: "world \<Rightarrow> string \<Rightarrow> world" where
  "redis_del w k = w\<lparr>kv := (kv w)(k := None), effects := effects w @ [Del k]\<rparr>"

fun set_fields :: "(string \<times> jsval) list \<Rightarrow> (string \<times> jsval) list \<Rightarrow> (string \<times> jsval) list" where
  "set_fields [] h = h"
| "set_fields ((f, v) # fs) h = set_fields fs (AList.update f v h)"

text \<open>
  \<^verbatim>\<open>HSET\<close>: creates the hash, without expiry, when the key does not exist; otherwise sets
  the given fields and leaves the other fields and the expiry alone.
\<close>

definition redis_hset :: "world \<Rightarrow> string \<Rightarrow> (string \<times> jsval) list \<Rightarrow> error + world" where
  "redis_hset w k fvs =
     (let w' = w\<lparr>effects := effects w @ [HSet k fvs]\<rparr> in
      case live w k of
        None \<Rightarrow>
          Inr (w'\<lparr>kv := (kv w)(k \<mapsto> \<lparr>content = RHash (set_fields fvs []), deadline = None\<rparr>)\<rparr>)
      | Some e \<Rightarrow>
          (case content e of
             RHash h \<Rightarrow> Inr (w'\<lparr>kv := (kv w)(k \<mapsto> e\<lparr>content := RHash (set_fields fvs h)\<rparr>)\<rparr>)
           | _ \<Rightarrow> Inl WrongType))"

text \<open>\<^verbatim>\<open>HGET\<close>: the client returns \<^verbatim>\<open>null\<close> for a missing key or field.\<close>

definition redis_hget :: "world \<Rightarrow> string \<Rightarrow> string \<Rightarrow> error + jsval" where
  "redis_hget w k f =
     (case live w k of
        None \<Rightarrow> Inr JNull
      | Some e \<Rightarrow>
          (case content e of
             RHash h \<Rightarrow> Inr (case map_of h f of None \<Rightarrow> JNull | Some v \<Rightarrow> v)
           | _ \<Rightarrow> Inl WrongType))"

text \<open>\<^verbatim>\<open>HGETALL\<close>: the client returns \<^verbatim>\<open>null\<close> (here \<open>None\<close>) for a missing or empty hash.\<close>

definition redis_hgetall :: "world \<Rightarrow> string \<Rightarrow> error + (string \<times> jsval) list option" where
  "redis_hgetall w k =
     (case live w k of
        None \<Rightarrow> Inr None
      | Some e \<Rightarrow>
          (case content e of
             RHash h \<Rightarrow> Inr (if h = [] then None else Some h)
           | _ \<Rightarrow> Inl WrongType))"

text \<open>\<^verbatim>\<open>RPUSH\<close>: creates the list, without expiry, when the key does not exist.\<close>

definition redis_rpush :: "world \<Rightarrow> string \<Rightarrow> jsval \<Rightarrow> error + world" where
  "redis_rpush w k v =
     (let w' = w\<lparr>effects := effects w @ [RPush k v]\<rparr> in
      case live w k of
        None \<Rightarrow> Inr (w'\<lparr>kv := (kv w)(k \<mapsto> \<lparr>content = RList [v], deadline = None\<rparr>)\<rparr>)
      | Some e \<Rightarrow>
          (case content e of
             RList xs \<Rightarrow> Inr (w'\<lparr>kv := (kv w)(k \<mapsto> e\<lparr>content := RList (xs @ [v])\<rparr>)\<rparr>)
           | _ \<Rightarrow> Inl WrongType))"

text \<open>\<^verbatim>\<open>LRANGE key 0 -1\<close>: the whole list, empty for a missing key.\<close>

definition redis_lrange :: "world \<Rightarrow> string \<Rightarrow> error + jsval list" where
  "redis_lrange w k =
     (case live w k of
        None \<Rightarrow> Inr []
      | Some e \<Rightarrow>
          (case content e of
             RList xs \<Rightarrow> Inr xs
           | _ \<Rightarrow> Inl WrongType))"

text \<open>
  Modelled from the spec: \<^verbatim>\<open>realtime\<close> (\<^verbatim>\<open>lib/realtime.ts\<close>) is not among the sources.
  \<^verbatim>\<open>realtime.channel(c).emit(name, payload)\<close> publishes the event on the channel. The
  spec's persisted state has, for each room, a chat-transport key used only by the event
  channel's own bookkeeping: it is the key named by the channel, the bare room identifier
  that the handlers delete and expire. An emit appends the event to the stream under that
  key, as \<^verbatim>\<open>XADD\<close> does: the stream is created, without expiry, when the key does not exist,
  and keeps its expiry otherwise. A key that holds something else is left as it is.
\<close>

definition emit :: "world \<Rightarrow> string \<Rightarrow> string \<Rightarrow> jsval \<Rightarrow> world" where
  "emit w channel name payload =
     (let w' = w\<lparr>effects := effects w @ [Emit channel name payload]\<rparr> in
      case live w channel of
        None \<Rightarrow>
          w'\<lparr>kv := (kv w)(channel \<mapsto> \<lparr>content = RStream [(name, payload)], deadline = None\<rparr>)\<rparr>
      | Some e \<Rightarrow>
          (case content e of
             RStream xs \<Rightarrow>
               w'\<lparr>kv := (kv w)(channel \<mapsto> e\<lparr>content := RStream (xs @ [(name, payload)])\<rparr>)\<rparr>
           | _ \<Rightarrow> w'))"

definition meta_key :: "string \<Rightarrow> string" where
  "meta_key roomId = ''meta:'' @ roomId"

definition messages_key :: "string \<Rightarrow> string" where
  "messages_key roomId = ''messages:'' @ roomId"

definition history_key :: "string \<Rightarrow> string" where
  "history_key roomId = ''history:'' @ roomId"

section \<open>Room creation\<close>

definition ROOM_TTL_SECONDS :: int where
  "ROOM_TTL_SECONDS = 60 * 10"

text \<open>\<^verbatim>\<open>Number.prototype.toString\<close> on a non-negative integer.\<close>

fun decimal :: "nat \<Rightarrow> string" where
  "decimal n =
     (if n < 10 then [''0123456789'' ! n]
      else decimal (n div 10) @ [''0123456789'' ! (n mod 10)])"

declare decimal.simps [simp del]

text \<open>
  \<^verbatim>\<open>route.ts\<close>, lines 10 to 21. The fresh identifier (\<^verbatim>\<open>nanoid()\<close>) and the wall clock
  (\<^verbatim>\<open>Date.now()\<close>) are inputs.
\<close>

definition room_create :: "printer \<Rightarrow> world \<Rightarrow> string \<Rightarrow> nat \<Rightarrow> world \<times> (error + string)" where
  "room_create stringify w roomId now_ms =
     (case redis_hset w (meta_key roomId)
             [(''connected'', JStr (stringify (JArr []))),
              (''createdAt'', JStr (decimal now_ms))] of
        Inl e \<Rightarrow> (w, Inl e)
      | Inr w1 \<Rightarrow> (redis_expire w1 (meta_key roomId) ROOM_TTL_SECONDS, Inr roomId))"

section \<open>Admission\<close>

text \<open>\<^verbatim>\<open>pathname.match(/^\/room\/([^/]+)$/)\<close>.\<close>

definition room_match :: "string \<Rightarrow> string option" where
  "room_match pathname =
     (if take 6 pathname = ''/room/'' \<and> drop 6 pathname \<noteq> [] \<and> CHR ''/'' \<notin> set (drop 6 pathname)
      then Some (drop 6 pathname) else None)"

text \<open>
  A response of the proxy is a redirect to a location, or \<^verbatim>\<open>NextResponse.next()\<close>, which
  lets the request through and may carry a new \<^verbatim>\<open>x-auth-token\<close> cookie.
\<close>

datatype response = Redirect string | Next "string option"

text \<open>
  \<^verbatim>\<open>proxy.ts\<close> awaits the store twice: \<^verbatim>\<open>hgetall\<close> on line 13 and \<^verbatim>\<open>hset\<close> on line 62.
  Between the two the request holds \<^verbatim>\<open>roomId\<close>, \<^verbatim>\<open>updatedConnected\<close> and the new
  \<^verbatim>\<open>token\<close>, and other requests may run. The first part, up to line 61:
\<close>

datatype proxy_state =
    Responded response
  | Thrown error
  | Writing string "jsval list" string

definition proxy_read :: "parser \<Rightarrow> world \<Rightarrow> string \<Rightarrow> string option \<Rightarrow> string \<Rightarrow> proxy_state" where
  "proxy_read parse w pathname existingToken nanoid =
     (case room_match pathname of
        None \<Rightarrow> Responded (Redirect ''/'')
      | Some roomId \<Rightarrow>
         (case redis_hgetall w (meta_key roomId) of
            Inl e \<Rightarrow> Thrown e
          | Inr None \<Rightarrow> Responded (Redirect ''/?error=room-not-found'')
          | Inr (Some meta) \<Rightarrow>
             (let connected =
                    proxy_connected parse
                      (case map_of meta ''connected'' of None \<Rightarrow> JUndefined | Some v \<Rightarrow> v)
              in if (case existingToken of
                       None \<Rightarrow> False
                     | Some t \<Rightarrow> t \<noteq> [] \<and> includes_token connected t)
                 then Responded (Next None)
                 else if length connected \<ge> 2
                 then Responded (Redirect ''/?error=room-full'')
                 else Writing roomId (connected @ [JStr nanoid]) nanoid)))"

text \<open>The second part, lines 62 to 65.\<close>

definition proxy_write ::
  "printer \<Rightarrow> world \<Rightarrow> string \<Rightarrow> jsval list \<Rightarrow> string \<Rightarrow> world \<times> (error + response)" where
  "proxy_write stringify w roomId updatedConnected token =
     (case redis_hset w (meta_key roomId)
             [(''connected'', JStr (stringify (JArr updatedConnected)))] of
        Inl e \<Rightarrow> (w, Inl e)
      | Inr w' \<Rightarrow> (w', Inr (Next (Some token))))"

text \<open>A request that runs alone, with nothing between its two parts.\<close>

definition proxy ::
  "parser \<Rightarrow> printer \<Rightarrow> world \<Rightarrow> string \<Rightarrow> string option \<Rightarrow> string \<Rightarrow> world \<times> (error + response)" where
  "proxy parse stringify w pathname existingToken nanoid =
     (case proxy_read parse w pathname existingToken nanoid of
        Responded r \<Rightarrow> (w, Inr r)
      | Thrown e \<Rightarrow> (w, Inl e)
      | Writing roomId updatedConnected token \<Rightarrow>
          proxy_write stringify w roomId updatedConnected token)"

section \<open>Session authentication\<close>

record session =
  roomId :: string
  token :: string
  connected :: "jsval list"

text \<open>
  \<^verbatim>\<open>auth.ts\<close>, lines 20 to 51: the \<^verbatim>\<open>derive\<close> hook in front of every API handler. Its
  arguments are the query's room identifier and the cookie's value as the hook receives
  them, each a string or missing. (The framework decodes a cookie that holds the text of a
  JSON object or array before the hook runs; the hook then receives no string, and such a
  cookie is not an input of this definition.)
\<close>

definition authMiddleware ::
  "parser \<Rightarrow> world \<Rightarrow> string option \<Rightarrow> string option \<Rightarrow> error + session" where
  "authMiddleware parse w query_roomId cookie_token =
     (case (query_roomId, cookie_token) of
        (Some r, Some t) \<Rightarrow>
          if r = [] \<or> t = [] then Inl (AuthError ''Unauthorized'')
          else
            (case redis_hget w (meta_key r) ''connected'' of
               Inl e \<Rightarrow> Inl e
             | Inr connectedRaw \<Rightarrow>
                (let c = auth_connected parse connectedRaw
                 in if \<not> includes_token c t then Inl (AuthError ''Invalid token'')
                    else Inr \<lparr>roomId = r, token = t, connected = c\<rparr>))
      | _ \<Rightarrow> Inl (AuthError ''Unauthorized''))"

text \<open>
  \<^verbatim>\<open>auth.ts\<close>, lines 14 to 19: the error hook. It answers an \<^verbatim>\<open>AuthError\<close> with a status
  and a body, and leaves every other error to the framework.
\<close>

definition onError :: "error \<Rightarrow> (nat \<times> jsval) option" where
  "onError e =
     (case e of
        AuthError m \<Rightarrow> Some (401, JObj [(''error'', JStr ''Unauthorized'')])
      | _ \<Rightarrow> None)"

text \<open>
  A hook of a plugin is registered with a scope. \<^verbatim>\<open>auth.ts\<close> registers the derive hook with
  \<^verbatim>\<open>{as: "scoped"}\<close> (line 20) and the error hook with no scope (line 14), which the
  framework takes as local. A local hook runs for the routes of the plugin itself; only a
  scoped or global hook runs for the routes of the instance that uses the plugin, and all
  routes of \<^verbatim>\<open>route.ts\<close> belong to such instances.
\<close>

datatype hook_scope = LocalHook | ScopedHook | GlobalHook

definition onError_scope :: hook_scope where
  "onError_scope = LocalHook"

definition reaches_routes :: "hook_scope \<Rightarrow> bool" where
  "reaches_routes sc = (sc \<noteq> LocalHook)"

text \<open>
  The framework's own answer to an error that no hook answers: status 500 with the error's
  message as the body. (A body that fails the schema is answered with status 422; the text
  of that answer and of a store error is not modelled.)
\<close>

definition default_answer :: "error \<Rightarrow> nat \<times> jsval" where
  "default_answer e =
     (case e of
        AuthError m \<Rightarrow> (500, JStr m)
      | Error m \<Rightarrow> (500, JStr m)
      | ValidationError \<Rightarrow> (422, JUndefined)
      | WrongType \<Rightarrow> (500, JUndefined))"

text \<open>What the caller of a route of \<^verbatim>\<open>route.ts\<close> receives when serving it throws.\<close>

definition route_failure :: "error \<Rightarrow> nat \<times> jsval" where
  "route_failure e =
     (if reaches_routes onError_scope
      then (case onError e of Some answer \<Rightarrow> answer | None \<Rightarrow> default_answer e)
      else default_answer e)"

text \<open>
  A request to a guarded route, up to the handler. The derive hook is scoped, so it runs
  for the route: the handler gets the session, or the caller gets the answer to what the
  hook threw.
\<close>

definition route_guard ::
  "parser \<Rightarrow> world \<Rightarrow> string option \<Rightarrow> string option \<Rightarrow> (nat \<times> jsval) + session" where
  "route_guard parse w query_roomId cookie_token =
     (case authMiddleware parse w query_roomId cookie_token of
        Inl e \<Rightarrow> Inl (route_failure e)
      | Inr auth \<Rightarrow> Inr auth)"

section \<open>Room lifetime\<close>

text \<open>\<^verbatim>\<open>route.ts\<close>, lines 22 to 25.\<close>

definition room_ttl :: "world \<Rightarrow> session \<Rightarrow> int" where
  "room_ttl w auth =
     (let ttl = redis_ttl w (meta_key (roomId auth)) in if ttl > 0 then ttl else 0)"

text \<open>\<^verbatim>\<open>route.ts\<close>, lines 28 to 38.\<close>

definition room_delete :: "world \<Rightarrow> session \<Rightarrow> world" where
  "room_delete w auth =
     (let w1 = emit w (roomId auth) ''chat.destroy'' (JObj [(''isDestroyed'', JBool True)]);
          w2 = redis_del w1 (roomId auth);
          w3 = redis_del w2 (meta_key (roomId auth));
          w4 = redis_del w3 (messages_key (roomId auth))
      in w4)"

section \<open>The message log\<close>

text \<open>
  \<^verbatim>\<open>route.ts\<close>, lines 72 to 77: the body schema. The framework checks it before the
  handler runs. Strings are lists of code units, so \<open>length\<close> is \<^verbatim>\<open>String.length\<close>.
\<close>

definition body_schema :: "jsval \<Rightarrow> (string \<times> string) option" where
  "body_schema body =
     (case body of
        JObj kvs \<Rightarrow>
          (case (map_of kvs ''sender'', map_of kvs ''text'') of
             (Some (JStr sender), Some (JStr text)) \<Rightarrow>
               if length sender \<le> 100 \<and> length text \<le> 1000 then Some (sender, text) else None
           | _ \<Rightarrow> None)
      | _ \<Rightarrow> None)"

text \<open>The \<^verbatim>\<open>Message\<close> object literal of lines 48 to 55.\<close>

definition Message :: "string \<Rightarrow> string \<Rightarrow> string \<Rightarrow> nat \<Rightarrow> string \<Rightarrow> string \<Rightarrow> jsval" where
  "Message mid sender text timestamp rid tok =
     JObj [(''id'', JStr mid), (''sender'', JStr sender), (''text'', JStr text),
           (''timestamp'', JNum (int timestamp)), (''roomId'', JStr rid), (''token'', JStr tok)]"

text \<open>
  \<^verbatim>\<open>route.ts\<close>, lines 40 to 71, behind the schema. The message identifier (\<^verbatim>\<open>nanoid()\<close>)
  and the wall clock are inputs.
\<close>

definition messages_post ::
  "printer \<Rightarrow> world \<Rightarrow> session \<Rightarrow> jsval \<Rightarrow> string \<Rightarrow> nat \<Rightarrow> world \<times> (error + jsval)" where
  "messages_post stringify w auth body nanoid now_ms =
     (case body_schema body of
        None \<Rightarrow> (w, Inl ValidationError)
      | Some (sender, text) \<Rightarrow>
          if \<not> redis_exists w (meta_key (roomId auth)) then (w, Inl (Error ''Room not found''))
          else
            (let message = Message nanoid sender text now_ms (roomId auth) (token auth);
                 redisKey = messages_key (roomId auth)
             in case redis_rpush w redisKey (JStr (stringify message)) of
                  Inl e \<Rightarrow> (w, Inl e)
                | Inr w1 \<Rightarrow>
                   (let w2 = emit w1 (roomId auth) ''chat.message'' message;
                        remaining = redis_ttl w2 (meta_key (roomId auth));
                        w3 = redis_expire w2 (messages_key (roomId auth)) remaining;
                        w4 = redis_expire w3 (history_key (roomId auth)) remaining;
                        w5 = redis_expire w4 (roomId auth) remaining
                    in (w5, Inr message))))"

text \<open>
  \<^verbatim>\<open>parsed.token\<close>: a \<^verbatim>\<open>TypeError\<close> (here \<open>None\<close>) on \<^verbatim>\<open>null\<close>, the property of an
  object, and \<^verbatim>\<open>undefined\<close> on anything else.
\<close>

definition prop_token :: "jsval \<Rightarrow> jsval option" where
  "prop_token parsed =
     (case parsed of
        JUndefined \<Rightarrow> None
      | JNull \<Rightarrow> None
      | JObj kvs \<Rightarrow> Some (case map_of kvs ''token'' of None \<Rightarrow> JUndefined | Some v \<Rightarrow> v)
      | _ \<Rightarrow> Some JUndefined)"

text \<open>\<^verbatim>\<open>{...parsed}\<close>: the own enumerable properties, in order.\<close>

definition spread :: "jsval \<Rightarrow> (string \<times> jsval) list" where
  "spread parsed =
     (case parsed of
        JObj kvs \<Rightarrow> kvs
      | JArr xs \<Rightarrow> zip (map decimal [0..<length xs]) xs
      | JStr s \<Rightarrow> zip (map decimal [0..<length s]) (map (\<lambda>c. JStr [c]) s)
      | _ \<Rightarrow> [])"

text \<open>
  The callback of \<^verbatim>\<open>map\<close>, lines 87 to 108: the masked message, or \<^verbatim>\<open>null\<close> for an entry
  that is neither a string nor an object or that throws.
\<close>

definition mask_entry :: "parser \<Rightarrow> session \<Rightarrow> jsval \<Rightarrow> jsval" where
  "mask_entry parse auth raw =
     (case (case raw of
              JStr s \<Rightarrow> parse s
            | JObj kvs \<Rightarrow> Some raw
            | JArr xs \<Rightarrow> Some raw
            | _ \<Rightarrow> None) of
        None \<Rightarrow> JNull
      | Some parsed \<Rightarrow>
          (case prop_token parsed of
             None \<Rightarrow> JNull
           | Some t \<Rightarrow>
               JObj (AList.update ''token''
                       (if t = JStr (token auth) then JStr (token auth) else JUndefined)
                       (spread parsed))))"

text \<open>\<^verbatim>\<open>route.ts\<close>, lines 78 to 116. The response wraps the list as \<^verbatim>\<open>{ messages }\<close>.\<close>

definition messages_get :: "parser \<Rightarrow> world \<Rightarrow> session \<Rightarrow> error + jsval list" where
  "messages_get parse w auth =
     (case redis_lrange w (messages_key (roomId auth)) of
        Inl e \<Rightarrow> Inl e
      | Inr messagesRaw \<Rightarrow>
          Inr (filter (\<lambda>msg. msg \<noteq> JNull)
                 (map (mask_entry parse auth)
                    (filter (\<lambda>raw. raw \<noteq> JNull \<and> raw \<noteq> JUndefined) messagesRaw))))"

section \<open>Requests that overlap\<close>

text \<open>
  The server takes the next request while one is waiting for the store, so the two parts
  of several admissions can interleave, and time can pass between them. A request is its
  path, its cookie and the token \<^verbatim>\<open>nanoid()\<close> will give it. An admission that has not started
  is \<open>None\<close>; \<open>Step i\<close> runs the next part of admission \<open>i\<close>, and \<open>Tick n\<close> lets \<open>n\<close> seconds pass.
\<close>

type_synonym request = "string \<times> string option \<times> string"

datatype event = Step nat | Tick nat

definition proxy_step ::
  "parser \<Rightarrow> printer \<Rightarrow> request list \<Rightarrow> nat \<Rightarrow> world \<times> proxy_state option list
     \<Rightarrow> world \<times> proxy_state option list" where
  "proxy_step parse stringify reqs i cfg =
     (case cfg of (w, ps) \<Rightarrow>
        if i < length reqs \<and> i < length ps then
          (case ps ! i of
             None \<Rightarrow>
               (case reqs ! i of
                  (p, c, n) \<Rightarrow> (w, ps[i := Some (proxy_read parse w p c n)]))
           | Some (Writing r u t) \<Rightarrow>
               (case proxy_write stringify w r u t of
                  (w', Inl e) \<Rightarrow> (w', ps[i := Some (Thrown e)])
                | (w', Inr resp) \<Rightarrow> (w', ps[i := Some (Responded resp)]))
           | Some _ \<Rightarrow> (w, ps))
        else (w, ps))"

fun run ::
  "parser \<Rightarrow> printer \<Rightarrow> request list \<Rightarrow> event list \<Rightarrow> world \<times> proxy_state option list
     \<Rightarrow> world \<times> proxy_state option list" where
  "run parse stringify reqs [] cfg = cfg"
| "run parse stringify reqs (Step i # es) cfg =
     run parse stringify reqs es (proxy_step parse stringify reqs i cfg)"
| "run parse stringify reqs (Tick n # es) (w, ps) =
     run parse stringify reqs es (w\<lparr>clock := clock w + n\<rparr>, ps)"

section \<open>What listing promises\<close>

text \<open>
  The listing contract in its own terms. An entry of the log decodes to a value, or fails to:
  a string decodes to what it parses to, an object decodes to itself, and nothing else
  decodes. A decoded message is handed out with its \<^verbatim>\<open>token\<close> kept when it is the
  requester's token, and cleared (\<^verbatim>\<open>undefined\<close>) otherwise.
\<close>

definition decode_entry :: "parser \<Rightarrow> jsval \<Rightarrow> jsval option" where
  "decode_entry parse raw =
     (case raw of
        JStr s \<Rightarrow> (case parse s of
                     None \<Rightarrow> None
                   | Some JNull \<Rightarrow> None
                   | Some JUndefined \<Rightarrow> None
                   | Some v \<Rightarrow> Some v)
      | JObj kvs \<Rightarrow> Some raw
      | JArr xs \<Rightarrow> Some raw
      | _ \<Rightarrow> None)"

definition own_prop :: "jsval \<Rightarrow> string \<Rightarrow> jsval" where
  "own_prop v k = (case map_of (spread v) k of None \<Rightarrow> JUndefined | Some x \<Rightarrow> x)"

definition redacted :: "string \<Rightarrow> jsval \<Rightarrow> jsval \<Rightarrow> bool" where
  "redacted t stored shown =
     (own_prop shown ''token'' = (if own_prop stored ''token'' = JStr t then JStr t else JUndefined)
      \<and> (\<forall>k \<in> set (map fst (spread stored)) \<union> set (map fst (spread shown)).
            k \<noteq> ''token'' \<longrightarrow> own_prop shown k = own_prop stored k))"

section \<open>Sample inputs\<close>

text \<open>
  The examples need a parser and a printer. \<open>sample_stringify\<close> prints a value as
  \<^verbatim>\<open>JSON.stringify\<close> does when no string needs escaping. \<open>sample_parse\<close> reads what the
  handlers write to the membership field: an array of strings, without white space or
  escapes. It rejects every other text; the examples give it no other JSON text.
\<close>

fun commas :: "string list \<Rightarrow> string" where
  "commas [] = []"
| "commas [x] = x"
| "commas (x # y # ys) = x @ '','' @ commas (y # ys)"

fun sample_stringify :: printer where
  "sample_stringify (JStr s) = [CHR 0x22] @ s @ [CHR 0x22]"
| "sample_stringify (JNum n) = (if n < 0 then ''-'' @ decimal (nat (- n)) else decimal (nat n))"
| "sample_stringify (JBool b) = (if b then ''true'' else ''false'')"
| "sample_stringify JNull = ''null''"
| "sample_stringify JUndefined = ''null''"
| "sample_stringify (JArr xs) = ''['' @ commas (map sample_stringify xs) @ '']''"
| "sample_stringify (JObj kvs) =
     ''{'' @ commas (map (\<lambda>kv. [CHR 0x22] @ fst kv @ [CHR 0x22] @ '':'' @ sample_stringify (snd kv)) kvs)
       @ ''}''"

datatype scan_state = Opened | Item | Inside string | After

fun scan :: "scan_state \<Rightarrow> jsval list \<Rightarrow> string \<Rightarrow> jsval list option" where
  "scan st items [] = None"
| "scan Opened items (c # cs) =
     (if c = CHR '']'' then (if cs = [] then Some items else None)
      else if c = CHR 0x22 then scan (Inside []) items cs
      else None)"
| "scan Item items (c # cs) =
     (if c = CHR 0x22 then scan (Inside []) items cs else None)"
| "scan (Inside acc) items (c # cs) =
     (if c = CHR 0x22 then scan After (items @ [JStr acc]) cs
      else if c = CHR 0x5C then None
      else scan (Inside (acc @ [c])) items cs)"
| "scan After items (c # cs) =
     (if c = CHR '']'' then (if cs = [] then Some items else None)
      else if c = CHR '','' then scan Item items cs
      else None)"

definition sample_parse :: parser where
  "sample_parse s =
     (case s of
        [] \<Rightarrow> None
      | c # cs \<Rightarrow> if c = CHR ''['' then map_option JArr (scan Opened [] cs) else None)"

definition empty_world :: world where
  "empty_world = \<lparr>kv = Map.empty, clock = 0, effects = []\<rparr>"

text \<open>
  A room created at instant 0 and seen at instant 250, with two members and a log of four
  entries: a message of each member, a string that is not JSON, and a number.
\<close>

definition sample_room :: world where
  "sample_room =
     \<lparr>kv = [''meta:r1'' \<mapsto>
              \<lparr>content = RHash [(''connected'', JArr [JStr ''tokA'', JStr ''tokB'']),
                                (''createdAt'', JStr ''1700000000000'')],
               deadline = Some 600\<rparr>,
            ''messages:r1'' \<mapsto>
              \<lparr>content = RList [Message ''m1'' ''alice'' ''hi'' 1700000001000 ''r1'' ''tokA'',
                                JStr ''oops'',
                                Message ''m2'' ''bob'' ''yo'' 1700000002000 ''r1'' ''tokB'',
                                JNum 7],
               deadline = Some 600\<rparr>],
      clock = 250, effects = []\<rparr>"

definition sample_session :: session where
  "sample_session = \<lparr>roomId = ''r1'', token = ''tokA'', connected = [JStr ''tokA'', JStr ''tokB'']\<rparr>"

text \<open>Ten visitors without a cookie.\<close>

definition ten_requests :: "request list" where
  "ten_requests =
     [(''/room/r1'', None, ''t0''), (''/room/r1'', None, ''t1''), (''/room/r1'', None, ''t2''),
      (''/room/r1'', None, ''t3''), (''/room/r1'', None, ''t4''), (''/room/r1'', None, ''t5''),
      (''/room/r1'', None, ''t6''), (''/room/r1'', None, ''t7''), (''/room/r1'', None, ''t8''),
      (''/room/r1'', None, ''t9'')]"

text \<open>A well-formed body for posting.\<close>

definition sample_body :: jsval where
  "sample_body = JObj [(''sender'', JStr ''alice''), (''text'', JStr ''hi'')]"

text \<open>
  A room as \<open>room_create\<close> leaves it at instant 0, and the order in which each of ten
  admissions runs its next part once.
\<close>

definition fresh_room :: world where
  "fresh_room = fst (room_create sample_stringify empty_world ''r1'' 1700000000000)"

definition ten_steps :: "event list" where
  "ten_steps = [Step 0, Step 1, Step 2, Step 3, Step 4, Step 5, Step 6, Step 7, Step 8, Step 9]"

text \<open>
  One visitor whose admission starts one second before the room's expiry and finishes one
  second after it; twenty minutes later the clock reads 1801.
\<close>

definition late_schedule :: "event list" where
  "late_schedule = [Tick 599, Step 0, Tick 2, Step 0, Tick 1200]"

text \<open>
  The store as the late admission leaves it, and the session of the visitor it admitted.
\<close>

definition late_room :: world where
  "late_room =
     fst (run sample_parse sample_stringify [(''/room/r1'', None, ''t0'')] late_schedule
            (fresh_room, [None]))"

definition late_session :: session where
  "late_session = \<lparr>roomId = ''r1'', token = ''t0'', connected = [JStr ''t0'']\<rparr>"

text \<open>A room whose membership field holds a bare token, as written before the list was.\<close>

definition legacy_room :: world where
  "legacy_room =
     \<lparr>kv = [''meta:r1'' \<mapsto>
              \<lparr>content = RHash [(''connected'', JStr ''tokA''),
                                (''createdAt'', JStr ''1700000000000'')],
               deadline = Some 600\<rparr>],
      clock = 250, effects = []\<rparr>"

text \<open>
  A room with one member, seen at instant 250; that member's session; and the store after
  the member has destroyed the room and a visitor, who had read the membership before the
  destruction, has written it back.
\<close>

definition lone_room :: world where
  "lone_room =
     \<lparr>kv = [''meta:r1'' \<mapsto>
              \<lparr>content = RHash [(''connected'', JArr [JStr ''tokA'']),
                                (''createdAt'', JStr ''1700000000000'')],
               deadline = Some 600\<rparr>],
      clock = 250, effects = []\<rparr>"

definition lone_session :: session where
  "lone_session = \<lparr>roomId = ''r1'', token = ''tokA'', connected = [JStr ''tokA'']\<rparr>"

definition rewritten_room :: world where
  "rewritten_room =
     fst (proxy_write sample_stringify (room_delete lone_room lone_session)
            ''r1'' [JStr ''tokA'', JStr ''tB''] ''tB'')"

section \<open>Facts about the sample inputs\<close>


lemma sample_room_connected:
  "redis_hget sample_room (meta_key ''r1'') ''connected'' =
     Inr (JArr [JStr ''tokA'', JStr ''tokB''])"
  by (simp add: redis_hget_def live_def sample_room_def meta_key_def)

lemma sample_room_live_meta:
  "live sample_room (meta_key ''r1'') =
     Some \<lparr>content = RHash [(''connected'', JArr [JStr ''tokA'', JStr ''tokB'']),
                              (''createdAt'', JStr ''1700000000000'')],
           deadline = Some 600\<rparr>"
  by (simp add: live_def sample_room_def meta_key_def)

section \<open>How the store commands act\<close>

lemma key_distinct [simp]:
  "meta_key r \<noteq> messages_key r'" "messages_key r \<noteq> meta_key r'"
  "meta_key r \<noteq> history_key r'" "history_key r \<noteq> meta_key r'"
  "messages_key r \<noteq> history_key r'" "history_key r \<noteq> messages_key r'"
  by (simp_all add: meta_key_def messages_key_def history_key_def)

lemma key_not_bare [simp]:
  "meta_key r \<noteq> r" "r \<noteq> meta_key r"
  "messages_key r \<noteq> r" "r \<noteq> messages_key r"
  "history_key r \<noteq> r" "r \<noteq> history_key r"
proof -
  have "length (meta_key r) \<noteq> length r" "length (messages_key r) \<noteq> length r"
       "length (history_key r) \<noteq> length r"
    by (simp_all add: meta_key_def messages_key_def history_key_def)
  then show "meta_key r \<noteq> r" "r \<noteq> meta_key r"
  "messages_key r \<noteq> r" "r \<noteq> messages_key r"
  "history_key r \<noteq> r" "r \<noteq> history_key r"
    by auto
qed

lemma meta_key_inj [simp]: "meta_key r = meta_key r' \<longleftrightarrow> r = r'"
  by (simp add: meta_key_def)

lemma clock_emit [simp]: "clock (emit w c n p) = clock w"
  by (simp add: emit_def Let_def split: option.splits rvalue.splits)

lemma effects_emit [simp]: "effects (emit w c n p) = effects w @ [Emit c n p]"
  by (simp add: emit_def Let_def split: option.splits rvalue.splits)

lemma kv_emit_other: "k \<noteq> c \<Longrightarrow> kv (emit w c n p) k = kv w k"
  by (simp add: emit_def Let_def split: option.splits rvalue.splits)

lemma live_emit_other [simp]: "k \<noteq> c \<Longrightarrow> live (emit w c n p) k = live w k"
  by (simp add: live_def kv_emit_other split: option.splits)

lemma live_emit_same:
  "\<exists>e. live (emit w c n p) c = Some e
        \<and> deadline e = (case live w c of None \<Rightarrow> None | Some e0 \<Rightarrow> deadline e0)"
  by (auto simp add: emit_def Let_def live_def split: option.splits rvalue.splits if_splits)

lemma live_del [simp]: "live (redis_del w k) k' = (if k' = k then None else live w k')"
  by (simp add: live_def redis_del_def split: option.splits)

lemma clock_del [simp]: "clock (redis_del w k) = clock w"
  by (simp add: redis_del_def)

lemma kv_del [simp]: "kv (redis_del w k) = (kv w)(k := None)"
  by (simp add: redis_del_def)

lemma effects_del [simp]: "effects (redis_del w k) = effects w @ [Del k]"
  by (simp add: redis_del_def)

lemma live_expire:
  "live (redis_expire w k s) k' =
     (if k' = k then
        (case live w k of
           None \<Rightarrow> None
         | Some e \<Rightarrow> if s \<le> 0 then None else Some (e\<lparr>deadline := Some (clock w + nat s)\<rparr>))
      else live w k')"
  by (auto simp add: live_def redis_expire_def Let_def split: option.splits)

lemma clock_expire [simp]: "clock (redis_expire w k s) = clock w"
  by (simp add: redis_expire_def Let_def split: option.splits)

lemma effects_expire [simp]: "effects (redis_expire w k s) = effects w @ [Expire k s]"
  by (simp add: redis_expire_def Let_def split: option.splits)

lemma kv_expire_other: "k' \<noteq> k \<Longrightarrow> kv (redis_expire w k s) k' = kv w k'"
  by (simp add: redis_expire_def Let_def split: option.splits)

lemma rpush_result:
  assumes "redis_rpush w k v = Inr w1"
  shows "clock w1 = clock w" 
    and "effects w1 = effects w @ [RPush k v]"
    and "k' \<noteq> k \<Longrightarrow> kv w1 k' = kv w k'"
    and "k' \<noteq> k \<Longrightarrow> live w1 k' = live w k'"
    and "\<exists>old. redis_lrange w k = Inr old \<and> redis_lrange w1 k = Inr (old @ [v])"
    and "live w1 k \<noteq> None"
    and "live w k = Some e \<Longrightarrow> deadline e = Some d \<Longrightarrow> \<exists>e'. live w1 k = Some e' \<and> deadline e' = Some d"
  using assms
  by (auto simp add: redis_rpush_def Let_def live_def redis_lrange_def split: option.splits rvalue.splits if_splits)

lemma rpush_error: "redis_rpush w k v = Inl e \<Longrightarrow> e = WrongType"
  by (auto simp add: redis_rpush_def Let_def split: option.splits rvalue.splits)

lemma hset_result:
  assumes "redis_hset w k fvs = Inr w1"
  shows "clock w1 = clock w"
    and "effects w1 = effects w @ [HSet k fvs]"
    and "k' \<noteq> k \<Longrightarrow> kv w1 k' = kv w k'"
    and "k' \<noteq> k \<Longrightarrow> live w1 k' = live w k'"
    and "live w k = Some e \<Longrightarrow> \<exists>h. content e = RHash h \<and> live w1 k = Some (e\<lparr>content := RHash (set_fields fvs h)\<rparr>)"
    and "live w k = None \<Longrightarrow> live w1 k = Some \<lparr>content = RHash (set_fields fvs []), deadline = None\<rparr>"
  using assms
  by (auto simp add: redis_hset_def Let_def live_def split: option.splits rvalue.splits if_splits)

lemma rpush_on_missing:
  "live w k = None \<Longrightarrow> \<exists>w1. redis_rpush w k v = Inr w1"
  by (simp add: redis_rpush_def Let_def)

lemma hset_on_missing:
  "live w k = None \<Longrightarrow>
   redis_hset w k fvs =
     Inr (w\<lparr>effects := effects w @ [HSet k fvs],
            kv := (kv w)(k \<mapsto> \<lparr>content = RHash (set_fields fvs []), deadline = None\<rparr>)\<rparr>)"
  by (simp add: redis_hset_def Let_def)

lemma ttl_of_live:
  "live w k = Some e \<Longrightarrow> deadline e = Some d \<Longrightarrow> redis_ttl w k = int d - int (clock w) \<and> clock w < d"
  by (auto simp add: redis_ttl_def live_def split: option.splits if_splits)

lemma room_delete_live:
  "live (room_delete w auth) k =
     (if k = roomId auth \<or> k = meta_key (roomId auth) \<or> k = messages_key (roomId auth)
      then None else live w k)"
  by (auto simp add: room_delete_def Let_def)

section \<open>How listing treats one entry\<close>

lemma decimal_digits: "set (decimal n) \<subseteq> set ''0123456789''"
proof (induction n rule: decimal.induct)
  case (1 n)
  have d: "\<And>k. k < 10 \<Longrightarrow> ''0123456789'' ! k \<in> set ''0123456789''"
    using nth_mem [of _ "''0123456789''"] by simp
  show ?case
  proof (cases "n < 10")
    case True
    then show ?thesis
      using d [of n] by (subst decimal.simps) simp
  next
    case False
    have "n mod 10 < 10" by simp
    with d have "''0123456789'' ! (n mod 10) \<in> set ''0123456789''" by blast
    with False 1 show ?thesis
      by (subst decimal.simps) simp
  qed
qed

lemma decimal_not_token: "decimal n \<noteq> ''token''"
proof
  assume "decimal n = ''token''"
  then have "CHR ''t'' \<in> set (decimal n)" by simp
  with decimal_digits [of n] show False by auto
qed

lemma token_not_index: "map_of (zip (map decimal ns) vs) ''token'' = None"
proof -
  have "''token'' \<notin> set (map decimal ns)"
    using decimal_not_token by (auto simp add: image_iff) metis
  then have "''token'' \<notin> fst ` set (zip (map decimal ns) vs)"
    by (auto dest: set_zip_leftD)
  then show ?thesis
    by (simp add: map_of_eq_None_iff)
qed

lemma own_prop_token:
  "prop_token v = Some x \<Longrightarrow> own_prop v ''token'' = x"
  by (cases v) (auto simp add: prop_token_def own_prop_def spread_def token_not_index split: option.splits)

lemma mask_entry_decoded:
  assumes "decode_entry parse raw = Some stored"
  shows "mask_entry parse auth raw \<noteq> JNull \<and> redacted (token auth) stored (mask_entry parse auth raw)"
proof -
  from assms have src: "(case raw of JStr s \<Rightarrow> parse s | JObj kvs \<Rightarrow> Some raw | JArr xs \<Rightarrow> Some raw
                          | _ \<Rightarrow> None) = Some stored"
    and nn: "stored \<noteq> JNull" "stored \<noteq> JUndefined"
    by (auto simp add: decode_entry_def split: jsval.splits option.splits)
  from nn obtain x where x: "prop_token stored = Some x"
    by (cases stored) (auto simp add: prop_token_def)
  let ?tok = "if x = JStr (token auth) then JStr (token auth) else JUndefined"
  have shown: "mask_entry parse auth raw = JObj (AList.update ''token'' ?tok (spread stored))"
    using src x by (simp add: mask_entry_def)
  have sp: "spread (JObj (AList.update ''token'' ?tok (spread stored)))
              = AList.update ''token'' ?tok (spread stored)"
    by (simp add: spread_def)
  have "redacted (token auth) stored (JObj (AList.update ''token'' ?tok (spread stored)))"
    unfolding redacted_def own_prop_def sp
    using own_prop_token [OF x]
    by (auto simp add: update_conv' own_prop_def)
  with shown show ?thesis by simp
qed

lemma mask_entry_undecoded:
  assumes "decode_entry parse raw = None"
  shows "mask_entry parse auth raw = JNull"
  using assms
  by (auto simp add: decode_entry_def mask_entry_def prop_token_def split: jsval.splits option.splits)

lemma decode_entry_null [simp]:
  "decode_entry parse JNull = None" "decode_entry parse JUndefined = None"
  by (simp_all add: decode_entry_def)

lemma listing_rel:
  "list_all2 (redacted (token auth)) (List.map_filter (decode_entry parse) raws)
     (filter (\<lambda>m. m \<noteq> JNull)
        (map (mask_entry parse auth) (filter (\<lambda>raw. raw \<noteq> JNull \<and> raw \<noteq> JUndefined) raws)))"
proof (induction raws)
  case Nil
  then show ?case by (simp add: List.map_filter_simps)
next
  case (Cons raw raws)
  show ?case
  proof (cases "decode_entry parse raw")
    case None
    then show ?thesis
      using Cons mask_entry_undecoded [OF None, of auth]
      by (simp add: List.map_filter_simps)
  next
    case (Some stored)
    then have "raw \<noteq> JNull" "raw \<noteq> JUndefined"
      by auto
    then show ?thesis
      using Cons Some mask_entry_decoded [OF Some, of auth]
      by (simp add: List.map_filter_simps)
  qed
qed

lemma sample_log:
  "redis_lrange sample_room (messages_key (roomId sample_session)) =
     Inr [Message ''m1'' ''alice'' ''hi'' 1700000001000 ''r1'' ''tokA'',
          JStr ''oops'',
          Message ''m2'' ''bob'' ''yo'' 1700000002000 ''r1'' ''tokB'',
          JNum 7]"
  by (simp add: redis_lrange_def live_def sample_room_def sample_session_def messages_key_def)

lemma sample_listing:
  "messages_get sample_parse sample_room sample_session =
       Inr [JObj [(''id'', JStr ''m1''), (''sender'', JStr ''alice''), (''text'', JStr ''hi''),
                  (''timestamp'', JNum 1700000001000), (''roomId'', JStr ''r1''),
                  (''token'', JStr ''tokA'')],
            JObj [(''id'', JStr ''m2''), (''sender'', JStr ''bob''), (''text'', JStr ''yo''),
                  (''timestamp'', JNum 1700000002000), (''roomId'', JStr ''r1''),
                  (''token'', JUndefined)]]"
  by (simp add: sample_log messages_get_def mask_entry_def prop_token_def spread_def Message_def
      sample_parse_def)
     (simp add: sample_session_def)

section \<open>How overlapping admissions run\<close>

lemma list_update_Cons_numeral:
  "(x # xs)[numeral k := y] = x # xs[pred_numeral k := y]"
  by (simp add: numeral_eq_Suc)

lemma run_append:
  "run parse stringify reqs (es @ es') cfg
     = run parse stringify reqs es' (run parse stringify reqs es cfg)"
  by (induction parse stringify reqs es cfg rule: run.induct) simp_all

lemma step_read:
  "i < length reqs \<Longrightarrow> i < length ps \<Longrightarrow> ps ! i = None \<Longrightarrow> reqs ! i = (p, c, n) \<Longrightarrow>
   proxy_step parse stringify reqs i (w, ps) = (w, ps[i := Some (proxy_read parse w p c n)])"
  by (simp add: proxy_step_def)

lemma step_write:
  "i < length reqs \<Longrightarrow> i < length ps \<Longrightarrow> ps ! i = Some (Writing r u t) \<Longrightarrow>
   proxy_step parse stringify reqs i (w, ps) =
     (case proxy_write stringify w r u t of
        (w', Inl e) \<Rightarrow> (w', ps[i := Some (Thrown e)])
      | (w', Inr resp) \<Rightarrow> (w', ps[i := Some (Responded resp)]))"
  by (simp add: proxy_step_def)

lemma write_live:
  "kv w (meta_key r) = Some \<lparr>content = RHash h, deadline = Some d\<rparr> \<Longrightarrow> clock w < d \<Longrightarrow>
   proxy_write stringify w r u t =
     (w\<lparr>effects := effects w @ [HSet (meta_key r) [(''connected'', JStr (stringify (JArr u)))]],
        kv := (kv w)(meta_key r \<mapsto>
                \<lparr>content = RHash (AList.update ''connected'' (JStr (stringify (JArr u))) h),
                 deadline = Some d\<rparr>)\<rparr>,
      Inr (Next (Some t)))"
  by (simp add: proxy_write_def redis_hset_def live_def Let_def)

lemma write_expired:
  "kv w (meta_key r) = Some \<lparr>content = c, deadline = Some d\<rparr> \<Longrightarrow> d \<le> clock w \<Longrightarrow>
   proxy_write stringify w r u t =
     (w\<lparr>effects := effects w @ [HSet (meta_key r) [(''connected'', JStr (stringify (JArr u)))]],
        kv := (kv w)(meta_key r \<mapsto>
                \<lparr>content = RHash [(''connected'', JStr (stringify (JArr u)))],
                 deadline = None\<rparr>)\<rparr>,
      Inr (Next (Some t)))"
  by (simp add: proxy_write_def redis_hset_def live_def Let_def)

lemma fresh_room_eq:
  "fresh_room =
     \<lparr>kv = [''meta:r1'' \<mapsto> \<lparr>content = RHash [(''connected'', JStr ''[]''),
                                                (''createdAt'', JStr (decimal 1700000000000))],
                              deadline = Some 600\<rparr>],
      clock = 0,
      effects = [HSet ''meta:r1'' [(''connected'', JStr ''[]''),
                                   (''createdAt'', JStr (decimal 1700000000000))],
                 Expire ''meta:r1'' 600]\<rparr>"
  by (simp add: fresh_room_def room_create_def redis_hset_def redis_expire_def live_def
      empty_world_def meta_key_def ROOM_TTL_SECONDS_def Let_def)

lemma fresh_read:
  "clock w < 600 \<Longrightarrow> kv w = kv fresh_room \<Longrightarrow>
   proxy_read sample_parse w ''/room/r1'' None n = Writing ''r1'' [JStr n] n"
  by (simp add: fresh_room_eq proxy_read_def room_match_def redis_hgetall_def live_def meta_key_def
      proxy_connected_def sample_parse_def)

lemma ten_reads:
  "run sample_parse sample_stringify ten_requests ten_steps
     (fresh_room, [None, None, None, None, None, None, None, None, None, None])
     = (fresh_room,
        [Some (Writing ''r1'' [JStr ''t0''] ''t0''), Some (Writing ''r1'' [JStr ''t1''] ''t1''),
         Some (Writing ''r1'' [JStr ''t2''] ''t2''), Some (Writing ''r1'' [JStr ''t3''] ''t3''),
         Some (Writing ''r1'' [JStr ''t4''] ''t4''), Some (Writing ''r1'' [JStr ''t5''] ''t5''),
         Some (Writing ''r1'' [JStr ''t6''] ''t6''), Some (Writing ''r1'' [JStr ''t7''] ''t7''),
         Some (Writing ''r1'' [JStr ''t8''] ''t8''), Some (Writing ''r1'' [JStr ''t9''] ''t9'')])"
proof -
  have c: "clock fresh_room < 600"
    by (simp add: fresh_room_eq)
  show ?thesis
    by (simp add: ten_steps_def ten_requests_def step_read fresh_read [OF c] list_update_Cons_numeral)
qed

lemma ten_writes:
  "run sample_parse sample_stringify ten_requests ten_steps
     (fresh_room,
        [Some (Writing ''r1'' [JStr ''t0''] ''t0''), Some (Writing ''r1'' [JStr ''t1''] ''t1''),
         Some (Writing ''r1'' [JStr ''t2''] ''t2''), Some (Writing ''r1'' [JStr ''t3''] ''t3''),
         Some (Writing ''r1'' [JStr ''t4''] ''t4''), Some (Writing ''r1'' [JStr ''t5''] ''t5''),
         Some (Writing ''r1'' [JStr ''t6''] ''t6''), Some (Writing ''r1'' [JStr ''t7''] ''t7''),
         Some (Writing ''r1'' [JStr ''t8''] ''t8''), Some (Writing ''r1'' [JStr ''t9''] ''t9'')])
   = (fresh_room
        \<lparr>effects := effects fresh_room @
           map (\<lambda>t. HSet ''meta:r1'' [(''connected'', JStr (sample_stringify (JArr [JStr t])))])
             [''t0'', ''t1'', ''t2'', ''t3'', ''t4'', ''t5'', ''t6'', ''t7'', ''t8'', ''t9''],
         kv := [''meta:r1'' \<mapsto>
                  \<lparr>content = RHash [(''connected'', JStr (sample_stringify (JArr [JStr ''t9'']))),
                                    (''createdAt'', JStr (decimal 1700000000000))],
                   deadline = Some 600\<rparr>]\<rparr>,
      [Some (Responded (Next (Some ''t0''))), Some (Responded (Next (Some ''t1''))),
       Some (Responded (Next (Some ''t2''))), Some (Responded (Next (Some ''t3''))),
       Some (Responded (Next (Some ''t4''))), Some (Responded (Next (Some ''t5''))),
       Some (Responded (Next (Some ''t6''))), Some (Responded (Next (Some ''t7''))),
       Some (Responded (Next (Some ''t8''))), Some (Responded (Next (Some ''t9'')))])"
  by (simp add: ten_steps_def ten_requests_def step_write write_live fresh_room_eq meta_key_def
      list_update_Cons_numeral)

section \<open>Re-admission\<close>



section \<open>The two membership reads\<close>

lemma connected_agree:
  "auth_connected parse v = proxy_connected parse v
     \<longleftrightarrow> \<not> (\<exists>s. v = JStr s \<and> s \<noteq> [] \<and> parse s = None)"
  by (cases v) (auto simp: auth_connected_def proxy_connected_def split: option.splits jsval.splits)

text \<open>
  What each read makes of each stored value: both take an array as it is and a string
  holding the JSON text of an array as the decoded array; both take a string holding other
  JSON text, a falsy value and a value that is neither a string nor an array to the empty
  sequence; a non-empty string that is not JSON is the empty sequence for the authenticator
  and the sequence holding that string for the admission path. That is the only kind of
  value on which the two differ.
\<close>

lemma connected_normalisation:
  "auth_connected parse (JArr xs) = xs \<and> proxy_connected parse (JArr xs) = xs
   \<and> (s \<noteq> [] \<and> parse s = Some (JArr ys) \<longrightarrow>
        auth_connected parse (JStr s) = ys \<and> proxy_connected parse (JStr s) = ys)
   \<and> (s' \<noteq> [] \<and> parse s' = Some v' \<and> (\<forall>zs. v' \<noteq> JArr zs) \<longrightarrow>
        auth_connected parse (JStr s') = [] \<and> proxy_connected parse (JStr s') = [])
   \<and> (s'' \<noteq> [] \<and> parse s'' = None \<longrightarrow>
        auth_connected parse (JStr s'') = [] \<and> proxy_connected parse (JStr s'') = [JStr s''])
   \<and> ((\<not> truthy v \<or> (\<forall>s. v \<noteq> JStr s) \<and> (\<forall>zs. v \<noteq> JArr zs)) \<longrightarrow>
        auth_connected parse v = [] \<and> proxy_connected parse v = [])
   \<and> (\<not> (\<exists>s. u = JStr s \<and> s \<noteq> [] \<and> parse s = None) \<longrightarrow>
        auth_connected parse u = proxy_connected parse u)"
proof (intro conjI impI)
  show "auth_connected parse (JArr xs) = xs" by (simp add: auth_connected_def)
  show "proxy_connected parse (JArr xs) = xs" by (simp add: proxy_connected_def)
next
  assume "s \<noteq> [] \<and> parse s = Some (JArr ys)"
  then show "auth_connected parse (JStr s) = ys" "proxy_connected parse (JStr s) = ys"
    by (simp_all add: auth_connected_def proxy_connected_def)
next
  assume a: "s' \<noteq> [] \<and> parse s' = Some v' \<and> (\<forall>zs. v' \<noteq> JArr zs)"
  then show "auth_connected parse (JStr s') = []" "proxy_connected parse (JStr s') = []"
    by (cases v'; simp add: auth_connected_def proxy_connected_def)+
next
  assume "s'' \<noteq> [] \<and> parse s'' = None"
  then show "auth_connected parse (JStr s'') = []" "proxy_connected parse (JStr s'') = [JStr s'']"
    by (simp_all add: auth_connected_def proxy_connected_def)
next
  assume "\<not> truthy v \<or> (\<forall>s. v \<noteq> JStr s) \<and> (\<forall>zs. v \<noteq> JArr zs)"
  then show "auth_connected parse v = []" "proxy_connected parse v = []"
    by (cases v; auto simp add: auth_connected_def proxy_connected_def)+
next
  assume "\<not> (\<exists>s. u = JStr s \<and> s \<noteq> [] \<and> parse s = None)"
  then show "auth_connected parse u = proxy_connected parse u"
    by (auto simp add: connected_agree)
qed

text \<open>
  Claim C3, at the input where the code departs from it. The membership field of a room
  holds the bare token \<^verbatim>\<open>tokA\<close>, which is not JSON. The admission path reads the field as
  the sequence holding that token, as its comment on legacy values says, and lets the
  holder of \<^verbatim>\<open>tokA\<close> through; the authenticator reads the same field as the empty
  sequence and refuses the same token on every API call.
\<close>

theorem legacy_member_split:
  "redis_hget legacy_room (meta_key ''r1'') ''connected'' = Inr (JStr ''tokA'')
   \<and> sample_parse ''tokA'' = None
   \<and> proxy_connected sample_parse (JStr ''tokA'') = [JStr ''tokA'']
   \<and> auth_connected sample_parse (JStr ''tokA'') = []
   \<and> proxy sample_parse sample_stringify legacy_room ''/room/r1'' (Some ''tokA'') ''tokC''
       = (legacy_room, Inr (Next None))
   \<and> authMiddleware sample_parse legacy_room (Some ''r1'') (Some ''tokA'')
       = Inl (AuthError ''Invalid token'')"
  by (simp add: redis_hget_def redis_hgetall_def live_def legacy_room_def meta_key_def
      sample_parse_def proxy_connected_def auth_connected_def proxy_def proxy_read_def
      room_match_def includes_token_def authMiddleware_def)

section \<open>Authentication\<close>

text \<open>
  What the hook decides: a request without a room identifier or without a token (absent or
  empty) is refused as \<^verbatim>\<open>Unauthorized\<close>; a request with both is refused as
  \<^verbatim>\<open>Invalid token\<close> when the normalised membership list does not hold the token, which
  is the case whenever the room's metadata key is gone or has expired; a request whose
  token is in the list gets the session \<open>\<lparr>roomId, token, connected\<rparr>\<close>.
\<close>

lemma authMiddleware_cases:
  "((qr = None \<or> qr = Some [] \<or> ct = None \<or> ct = Some []) \<longrightarrow>
      authMiddleware parse w qr ct = Inl (AuthError ''Unauthorized''))
   \<and> (r \<noteq> [] \<and> t \<noteq> [] \<and> redis_hget w (meta_key r) ''connected'' = Inr raw
        \<and> \<not> includes_token (auth_connected parse raw) t \<longrightarrow>
        authMiddleware parse w (Some r) (Some t) = Inl (AuthError ''Invalid token''))
   \<and> (r' \<noteq> [] \<and> t' \<noteq> [] \<and> live w' (meta_key r') = None \<longrightarrow>
        authMiddleware parse w' (Some r') (Some t') = Inl (AuthError ''Invalid token''))
   \<and> (r \<noteq> [] \<and> t'' \<noteq> [] \<and> redis_hget w (meta_key r) ''connected'' = Inr raw
        \<and> includes_token (auth_connected parse raw) t'' \<longrightarrow>
        authMiddleware parse w (Some r) (Some t'') =
          Inr \<lparr>roomId = r, token = t'', connected = auth_connected parse raw\<rparr>)"
  apply (intro conjI impI)
     apply (cases qr; cases ct; auto simp add: authMiddleware_def)
    apply (simp add: authMiddleware_def)
   apply (simp add: authMiddleware_def redis_hget_def auth_connected_def includes_token_def)
  apply (simp add: authMiddleware_def)
  done

lemma route_failure_auth: "route_failure (AuthError m) = (500, JStr m)"
  by (simp add: route_failure_def reaches_routes_def onError_scope_def default_answer_def)

text \<open>
  Claim C7, at the input where the code departs from it. Two requests to a guarded route of
  a room whose members are \<^verbatim>\<open>tokA\<close> and \<^verbatim>\<open>tokB\<close>: one without a cookie, one with the
  cookie \<^verbatim>\<open>tokC\<close>. The error hook would answer both with status 401 and the body
  \<^verbatim>\<open>{error: "Unauthorized"}\<close>, but it is registered as a local hook and does not run for
  the routes. The callers get the framework's answer: status 500 with the error's message,
  \<^verbatim>\<open>Unauthorized\<close> for the first and \<^verbatim>\<open>Invalid token\<close> for the second, which tells the two
  refusals apart.
\<close>

theorem auth_refusals_told_apart:
  "route_guard sample_parse sample_room (Some ''r1'') None = Inl (500, JStr ''Unauthorized'')
   \<and> route_guard sample_parse sample_room (Some ''r1'') (Some ''tokC'')
       = Inl (500, JStr ''Invalid token'')
   \<and> route_guard sample_parse sample_room (Some ''r1'') None
       \<noteq> route_guard sample_parse sample_room (Some ''r1'') (Some ''tokC'')
   \<and> onError (AuthError ''Invalid token'') = Some (401, JObj [(''error'', JStr ''Unauthorized'')])
   \<and> \<not> reaches_routes onError_scope"
  by (simp add: route_guard_def authMiddleware_def sample_room_connected auth_connected_def
      includes_token_def route_failure_auth onError_def reaches_routes_def onError_scope_def)

section \<open>Remaining lifetime\<close>

text \<open>
  Claim C9. The remaining lifetime handed out is never negative. It is 0 when the room's
  metadata key is absent or has expired, purged or not, and whenever the store answers
  with one of its negative sentinels; otherwise it is the store's positive answer.
\<close>

theorem room_ttl_never_negative:
  "0 \<le> room_ttl w auth
   \<and> (live w (meta_key (roomId auth)) = None \<longrightarrow> room_ttl w auth = 0)
   \<and> (redis_ttl w (meta_key (roomId auth)) \<le> 0 \<longrightarrow> room_ttl w auth = 0)
   \<and> (0 < redis_ttl w (meta_key (roomId auth)) \<longrightarrow>
        room_ttl w auth = redis_ttl w (meta_key (roomId auth)))"
  by (simp add: room_ttl_def Let_def redis_ttl_def)

theorem room_ttl_never_negative_witness:
  "live (sample_room\<lparr>clock := 700\<rparr>) (meta_key (roomId sample_session)) = None
   \<and> redis_ttl (sample_room\<lparr>clock := 700\<rparr>) (meta_key (roomId sample_session)) = - 2
   \<and> room_ttl (sample_room\<lparr>clock := 700\<rparr>) sample_session = 0"
  using room_ttl_never_negative [of "sample_room\<lparr>clock := 700\<rparr>" sample_session]
  by (simp add: sample_room_def sample_session_def live_def meta_key_def redis_ttl_def)

section \<open>Posting\<close>

text \<open>
  A post that succeeds on a room whose metadata key carries an expiry. The body passed the
  schema, and the message returned has all six fields: the fresh id, the sender and text of
  the body, the time stamp, the session's room and the session's token. The log is the old
  log with exactly one entry more, at its end: the text of that message. The effects are,
  in this order: the append, the \<^verbatim>\<open>chat.message\<close> event on the room's channel carrying the
  same message, token included, and one \<^verbatim>\<open>EXPIRE\<close> for each of the messages key, the
  history key and the bare room key, each with the metadata key's remaining lifetime as
  read from the store, not with the constant 600. Afterwards the remaining lifetimes of
  the log and of the channel's key equal the metadata key's, and so does that of the
  history key when it exists; the metadata key itself is as it was.
\<close>

lemma body_schema_fields:
  "body_schema b = Some (sd, tx) \<Longrightarrow>
   \<exists>kvs. b = JObj kvs \<and> map_of kvs ''sender'' = Some (JStr sd) \<and> map_of kvs ''text'' = Some (JStr tx)
         \<and> length sd \<le> 100 \<and> length tx \<le> 1000"
  by (auto simp add: body_schema_def split: jsval.splits option.splits if_splits)

lemma messages_post_with_expiry:
  assumes post: "messages_post stringify w auth b n now = (w', Inr m)"
    and meta: "live w (meta_key (roomId auth)) = Some e" "deadline e = Some d"
  shows "(\<exists>kvs sd tx. b = JObj kvs \<and> map_of kvs ''sender'' = Some (JStr sd)
              \<and> map_of kvs ''text'' = Some (JStr tx)
              \<and> m = JObj [(''id'', JStr n), (''sender'', JStr sd), (''text'', JStr tx),
                          (''timestamp'', JNum (int now)), (''roomId'', JStr (roomId auth)),
                          (''token'', JStr (token auth))])
     \<and> (\<exists>old. redis_lrange w (messages_key (roomId auth)) = Inr old
              \<and> redis_lrange w' (messages_key (roomId auth)) = Inr (old @ [JStr (stringify m)]))
     \<and> effects w' = effects w @
          [RPush (messages_key (roomId auth)) (JStr (stringify m)),
           Emit (roomId auth) ''chat.message'' m,
           Expire (messages_key (roomId auth)) (redis_ttl w (meta_key (roomId auth))),
           Expire (history_key (roomId auth)) (redis_ttl w (meta_key (roomId auth))),
           Expire (roomId auth) (redis_ttl w (meta_key (roomId auth)))]
     \<and> 0 < redis_ttl w (meta_key (roomId auth))
     \<and> redis_ttl w' (messages_key (roomId auth)) = redis_ttl w (meta_key (roomId auth))
     \<and> (redis_exists w (history_key (roomId auth)) \<longrightarrow>
          redis_ttl w' (history_key (roomId auth)) = redis_ttl w (meta_key (roomId auth)))
     \<and> redis_ttl w' (roomId auth) = redis_ttl w (meta_key (roomId auth))
     \<and> live w' (meta_key (roomId auth)) = Some e"
proof -
  let ?r = "roomId auth"
  let ?rem = "redis_ttl w (meta_key ?r)"
  from post obtain sd tx where body: "body_schema b = Some (sd, tx)"
    by (cases "body_schema b") (auto simp add: messages_post_def)
  let ?msg = "Message n sd tx now ?r (token auth)"
  from post body obtain w1 where
    push: "redis_rpush w (messages_key ?r) (JStr (stringify ?msg)) = Inr w1"
    by (cases "redis_rpush w (messages_key ?r) (JStr (stringify ?msg))")
       (auto simp add: messages_post_def Let_def split: if_splits)
  note w1 = rpush_result [OF push]
  let ?w2 = "emit w1 ?r ''chat.message'' ?msg"
  have meta1: "live w1 (meta_key ?r) = Some e"
    using w1(4) [of "meta_key ?r"] meta(1) by simp
  have meta2: "live ?w2 (meta_key ?r) = Some e"
    using meta1 by simp
  have rem1: "redis_ttl ?w2 (meta_key ?r) = ?rem"
    using meta2 meta w1(1) by (simp add: redis_ttl_def)
  have rem_pos: "0 < ?rem"
    using ttl_of_live [OF meta] by simp
  have res: "w' = redis_expire (redis_expire (redis_expire ?w2
                    (messages_key ?r) ?rem) (history_key ?r) ?rem) ?r ?rem"
    and m: "m = ?msg"
    using post body push rem1
    by (auto simp add: messages_post_def Let_def split: if_splits)
  have clock': "clock w' = clock w"
    by (simp add: res w1(1))
  from w1(6) obtain e1 where e1: "live w1 (messages_key ?r) = Some e1"
    by auto
  have log': "live w' (messages_key ?r) = Some (e1\<lparr>deadline := Some (clock w + nat ?rem)\<rparr>)"
    using rem_pos by (simp add: res live_expire e1 w1(1))
  from live_emit_same [of w1 ?r "''chat.message''" ?msg]
  obtain es where es: "live ?w2 ?r = Some es"
    by blast
  have bare': "live w' ?r = Some (es\<lparr>deadline := Some (clock w + nat ?rem)\<rparr>)"
    using rem_pos by (simp add: res live_expire es w1(1))
  from body_schema_fields [OF body] m
  have c0: "\<exists>kvs sd tx. b = JObj kvs \<and> map_of kvs ''sender'' = Some (JStr sd)
              \<and> map_of kvs ''text'' = Some (JStr tx)
              \<and> m = JObj [(''id'', JStr n), (''sender'', JStr sd), (''text'', JStr tx),
                          (''timestamp'', JNum (int now)), (''roomId'', JStr ?r),
                          (''token'', JStr (token auth))]"
    by (auto simp add: Message_def)
  have c1: "\<exists>old. redis_lrange w (messages_key ?r) = Inr old
              \<and> redis_lrange w' (messages_key ?r) = Inr (old @ [JStr (stringify m)])"
    using w1(5) e1 log' by (auto simp add: redis_lrange_def m split: rvalue.splits)
  have c2: "redis_ttl w' (messages_key ?r) = ?rem"
    using log' rem_pos by (simp add: redis_ttl_def clock')
  have c3: "redis_exists w (history_key ?r) \<longrightarrow> redis_ttl w' (history_key ?r) = ?rem"
    using rem_pos w1(4) [of "history_key ?r"]
    by (auto simp add: redis_exists_def res live_expire redis_ttl_def w1(1))
  have c4: "redis_ttl w' ?r = ?rem"
    using bare' rem_pos by (simp add: redis_ttl_def clock')
  have c5: "live w' (meta_key ?r) = Some e"
    using meta2 by (simp add: res live_expire)
  have c6: "effects w' = effects w @
          [RPush (messages_key ?r) (JStr (stringify m)), Emit ?r ''chat.message'' m,
           Expire (messages_key ?r) ?rem, Expire (history_key ?r) ?rem, Expire ?r ?rem]"
    by (simp add: res w1(2) m)
  from c0 c1 c6 rem_pos c2 c3 c4 c5 show ?thesis
    by (intro conjI)
qed

text \<open>
  Claim C8. For a body that passes the schema, posting fails with \<^verbatim>\<open>Room not found\<close>
  exactly when the metadata key does not exist at that moment. A body whose sender is
  longer than 100, whose text is longer than 1000, or that lacks either field is rejected
  by the schema. Whenever posting fails, for whatever reason, the world is returned as it
  was: nothing is appended and nothing is emitted.
\<close>

theorem messages_post_failures:
  "(body_schema b \<noteq> None \<longrightarrow>
      (snd (messages_post stringify w auth b n now) = Inl (Error ''Room not found'')
         \<longleftrightarrow> \<not> redis_exists w (meta_key (roomId auth))))
   \<and> (map_of kvs ''sender'' = Some (JStr sd) \<and> 100 < length sd \<longrightarrow>
        messages_post stringify w auth (JObj kvs) n now = (w, Inl ValidationError))
   \<and> (map_of kvs' ''text'' = Some (JStr tx) \<and> 1000 < length tx \<longrightarrow>
        messages_post stringify w auth (JObj kvs') n now = (w, Inl ValidationError))
   \<and> (map_of kvs'' ''sender'' = None \<or> map_of kvs'' ''text'' = None \<longrightarrow>
        messages_post stringify w auth (JObj kvs'') n now = (w, Inl ValidationError))
   \<and> (snd (messages_post stringify w auth b' n now) = Inl e \<longrightarrow>
        fst (messages_post stringify w auth b' n now) = w)"
proof (intro conjI impI)
  assume "body_schema b \<noteq> None"
  then obtain sd tx where body: "body_schema b = Some (sd, tx)"
    by auto
  show "snd (messages_post stringify w auth b n now) = Inl (Error ''Room not found'')
         \<longleftrightarrow> \<not> redis_exists w (meta_key (roomId auth))"
    using body
    by (auto simp add: messages_post_def Let_def split: sum.splits dest: rpush_error)
next
  assume "map_of kvs ''sender'' = Some (JStr sd) \<and> 100 < length sd"
  then have "body_schema (JObj kvs) = None"
    by (auto simp add: body_schema_def split: option.splits jsval.splits)
  then show "messages_post stringify w auth (JObj kvs) n now = (w, Inl ValidationError)"
    by (simp add: messages_post_def)
next
  assume "map_of kvs' ''text'' = Some (JStr tx) \<and> 1000 < length tx"
  then have "body_schema (JObj kvs') = None"
    by (auto simp add: body_schema_def split: option.splits jsval.splits)
  then show "messages_post stringify w auth (JObj kvs') n now = (w, Inl ValidationError)"
    by (simp add: messages_post_def)
next
  assume "map_of kvs'' ''sender'' = None \<or> map_of kvs'' ''text'' = None"
  then have "body_schema (JObj kvs'') = None"
    by (auto simp add: body_schema_def split: option.splits jsval.splits)
  then show "messages_post stringify w auth (JObj kvs'') n now = (w, Inl ValidationError)"
    by (simp add: messages_post_def)
next
  assume "snd (messages_post stringify w auth b' n now) = Inl e"
  then show "fst (messages_post stringify w auth b' n now) = w"
    by (auto simp add: messages_post_def Let_def split: option.splits sum.splits if_splits)
qed

theorem messages_post_failures_witness:
  "body_schema sample_body \<noteq> None
   \<and> \<not> redis_exists (sample_room\<lparr>clock := 700\<rparr>) (meta_key (roomId sample_session))
   \<and> messages_post sample_stringify (sample_room\<lparr>clock := 700\<rparr>) sample_session sample_body
        ''m3'' 1700000003000
       = (sample_room\<lparr>clock := 700\<rparr>, Inl (Error ''Room not found''))
   \<and> length (replicate 101 CHR ''a'') = 101
   \<and> messages_post sample_stringify sample_room sample_session
        (JObj [(''sender'', JStr (replicate 101 CHR ''a'')), (''text'', JStr ''hi'')])
        ''m3'' 1700000003000
       = (sample_room, Inl ValidationError)
   \<and> length (replicate 1001 CHR ''a'') = 1001
   \<and> messages_post sample_stringify sample_room sample_session
        (JObj [(''sender'', JStr ''alice''), (''text'', JStr (replicate 1001 CHR ''a''))])
        ''m3'' 1700000003000
       = (sample_room, Inl ValidationError)
   \<and> map_of [(''sender'', JStr ''alice'')] ''text'' = None
   \<and> messages_post sample_stringify sample_room sample_session
        (JObj [(''sender'', JStr ''alice'')]) ''m3'' 1700000003000
       = (sample_room, Inl ValidationError)"
proof -
  have gone: "\<not> redis_exists (sample_room\<lparr>clock := 700\<rparr>) (meta_key (roomId sample_session))"
    by (simp add: redis_exists_def live_def sample_room_def sample_session_def meta_key_def)
  have body: "body_schema sample_body \<noteq> None"
    by (simp add: body_schema_def sample_body_def)
  note late = messages_post_failures [of sample_body sample_stringify "sample_room\<lparr>clock := 700\<rparr>"
      sample_session "''m3''" 1700000003000
      "[(''sender'', JStr (replicate 101 CHR ''a'')), (''text'', JStr ''hi'')]" "replicate 101 CHR ''a''"
      "[(''sender'', JStr ''alice''), (''text'', JStr (replicate 1001 CHR ''a''))]"
      "replicate 1001 CHR ''a''"
      "[(''sender'', JStr ''alice'')]" sample_body "Error ''Room not found''"]
  note early = messages_post_failures [of sample_body sample_stringify sample_room
      sample_session "''m3''" 1700000003000
      "[(''sender'', JStr (replicate 101 CHR ''a'')), (''text'', JStr ''hi'')]" "replicate 101 CHR ''a''"
      "[(''sender'', JStr ''alice''), (''text'', JStr (replicate 1001 CHR ''a''))]"
      "replicate 1001 CHR ''a''"
      "[(''sender'', JStr ''alice'')]" sample_body "Error ''Room not found''"]
  from late gone body
  have 1: "messages_post sample_stringify (sample_room\<lparr>clock := 700\<rparr>) sample_session sample_body
             ''m3'' 1700000003000
       = (sample_room\<lparr>clock := 700\<rparr>, Inl (Error ''Room not found''))"
    by (simp add: prod_eq_iff)
  from early
  have 2: "messages_post sample_stringify sample_room sample_session
        (JObj [(''sender'', JStr (replicate 101 CHR ''a'')), (''text'', JStr ''hi'')])
        ''m3'' 1700000003000
       = (sample_room, Inl ValidationError)"
    and 3: "messages_post sample_stringify sample_room sample_session
        (JObj [(''sender'', JStr ''alice''), (''text'', JStr (replicate 1001 CHR ''a''))])
        ''m3'' 1700000003000
       = (sample_room, Inl ValidationError)"
    and 4: "messages_post sample_stringify sample_room sample_session
        (JObj [(''sender'', JStr ''alice'')]) ''m3'' 1700000003000
       = (sample_room, Inl ValidationError)"
    by simp_all
  from 1 2 3 4 gone body show ?thesis
    by simp
qed

section \<open>Destruction\<close>

text \<open>
  Destroying a room has four effects, in this order: the \<^verbatim>\<open>chat.destroy\<close> event on the
  room's channel, then the deletion of the bare room key (the channel's own key), of the
  metadata key and of the messages key. The store afterwards is the store before without
  exactly these three keys. A request that starts on that store finds no room: an
  admission is redirected with \<^verbatim>\<open>room-not-found\<close>, every token is refused by the
  authenticator, a post that still holds an old session fails with \<^verbatim>\<open>Room not found\<close>,
  and a listing with an old session is empty.
\<close>

lemma room_delete_alone:
  "effects (room_delete w auth) = effects w @
      [Emit (roomId auth) ''chat.destroy'' (JObj [(''isDestroyed'', JBool True)]),
       Del (roomId auth), Del (meta_key (roomId auth)), Del (messages_key (roomId auth))]
   \<and> kv (room_delete w auth) =
       (kv w)(roomId auth := None, meta_key (roomId auth) := None,
              messages_key (roomId auth) := None)
   \<and> clock (room_delete w auth) = clock w
   \<and> (room_match p = Some (roomId auth) \<longrightarrow>
        proxy parse stringify (room_delete w auth) p c n
          = (room_delete w auth, Inr (Redirect ''/?error=room-not-found'')))
   \<and> (roomId auth \<noteq> [] \<and> t \<noteq> [] \<longrightarrow>
        authMiddleware parse (room_delete w auth) (Some (roomId auth)) (Some t)
          = Inl (AuthError ''Invalid token''))
   \<and> (body_schema b \<noteq> None \<longrightarrow>
        messages_post stringify (room_delete w auth) auth b n' now
          = (room_delete w auth, Inl (Error ''Room not found'')))
   \<and> messages_get parse (room_delete w auth) auth = Inr []"
proof (intro conjI impI)
  show "effects (room_delete w auth) = effects w @
      [Emit (roomId auth) ''chat.destroy'' (JObj [(''isDestroyed'', JBool True)]),
       Del (roomId auth), Del (meta_key (roomId auth)), Del (messages_key (roomId auth))]"
    by (simp add: room_delete_def Let_def)
  show "kv (room_delete w auth) =
       (kv w)(roomId auth := None, meta_key (roomId auth) := None,
              messages_key (roomId auth) := None)"
    by (auto simp add: room_delete_def Let_def fun_eq_iff kv_emit_other)
  show "clock (room_delete w auth) = clock w"
    by (simp add: room_delete_def Let_def)
next
  assume "room_match p = Some (roomId auth)"
  then show "proxy parse stringify (room_delete w auth) p c n
          = (room_delete w auth, Inr (Redirect ''/?error=room-not-found''))"
    by (simp add: proxy_def proxy_read_def redis_hgetall_def room_delete_live)
next
  assume "roomId auth \<noteq> [] \<and> t \<noteq> []"
  then show "authMiddleware parse (room_delete w auth) (Some (roomId auth)) (Some t)
          = Inl (AuthError ''Invalid token'')"
    by (simp add: authMiddleware_def redis_hget_def room_delete_live auth_connected_def
        includes_token_def)
next
  assume "body_schema b \<noteq> None"
  then show "messages_post stringify (room_delete w auth) auth b n' now
          = (room_delete w auth, Inl (Error ''Room not found''))"
    by (auto simp add: messages_post_def redis_exists_def room_delete_live)
next
  show "messages_get parse (room_delete w auth) auth = Inr []"
    by (simp add: messages_get_def redis_lrange_def room_delete_live)
qed


lemma lone_room_connected:
  "redis_hget lone_room (meta_key ''r1'') ''connected'' = Inr (JArr [JStr ''tokA''])"
  by (simp add: redis_hget_def live_def lone_room_def meta_key_def)

lemma rewritten_room_live:
  "live rewritten_room (meta_key ''r1'') =
     Some \<lparr>content = RHash [(''connected'',
                               JStr (sample_stringify (JArr [JStr ''tokA'', JStr ''tB''])))],
           deadline = None\<rparr>"
proof -
  have dead: "live (room_delete lone_room lone_session) (meta_key ''r1'') = None"
    by (simp add: room_delete_live lone_session_def)
  show ?thesis
    unfolding rewritten_room_def proxy_write_def hset_on_missing [OF dead]
    by (simp add: live_def)
qed

text \<open>
  Claim C6, at the input where the code departs from it. A room has the one member
  \<^verbatim>\<open>tokA\<close>. A visitor's admission reads the membership; the member destroys the room, and an
  admission that starts now is redirected with \<^verbatim>\<open>room-not-found\<close>; then the visitor's
  admission writes the membership it had prepared. The write creates the metadata key
  anew, without expiry, holding \<^verbatim>\<open>tokA\<close> and the visitor's token. From then on an
  admission to the destroyed room is redirected with \<^verbatim>\<open>room-full\<close>, and the token of the
  member who destroyed it authenticates again.
\<close>

theorem destroyed_room_rewritten:
  "route_guard sample_parse lone_room (Some ''r1'') (Some ''tokA'') = Inr lone_session
   \<and> proxy_read sample_parse lone_room ''/room/r1'' None ''tB''
       = Writing ''r1'' [JStr ''tokA'', JStr ''tB''] ''tB''
   \<and> proxy sample_parse sample_stringify (room_delete lone_room lone_session) ''/room/r1'' None ''tC''
       = (room_delete lone_room lone_session, Inr (Redirect ''/?error=room-not-found''))
   \<and> snd (proxy_write sample_stringify (room_delete lone_room lone_session)
             ''r1'' [JStr ''tokA'', JStr ''tB''] ''tB'') = Inr (Next (Some ''tB''))
   \<and> proxy sample_parse sample_stringify rewritten_room ''/room/r1'' None ''tC''
       = (rewritten_room, Inr (Redirect ''/?error=room-full''))
   \<and> route_guard sample_parse rewritten_room (Some ''r1'') (Some ''tokA'')
       = Inr \<lparr>roomId = ''r1'', token = ''tokA'', connected = [JStr ''tokA'', JStr ''tB'']\<rparr>
   \<and> redis_ttl rewritten_room (meta_key ''r1'') = - 1"
proof -
  have dead: "live (room_delete lone_room lone_session) (meta_key ''r1'') = None"
    by (simp add: room_delete_live lone_session_def)
  have 1: "route_guard sample_parse lone_room (Some ''r1'') (Some ''tokA'') = Inr lone_session"
    by (simp add: route_guard_def authMiddleware_def lone_room_connected auth_connected_def
        includes_token_def lone_session_def)
  have 2: "proxy_read sample_parse lone_room ''/room/r1'' None ''tB''
       = Writing ''r1'' [JStr ''tokA'', JStr ''tB''] ''tB''"
    by (simp add: proxy_read_def room_match_def redis_hgetall_def live_def lone_room_def
        meta_key_def proxy_connected_def)
  have 3: "proxy sample_parse sample_stringify (room_delete lone_room lone_session) ''/room/r1'' None ''tC''
       = (room_delete lone_room lone_session, Inr (Redirect ''/?error=room-not-found''))"
    using dead by (simp add: proxy_def proxy_read_def room_match_def redis_hgetall_def)
  have 4: "snd (proxy_write sample_stringify (room_delete lone_room lone_session)
             ''r1'' [JStr ''tokA'', JStr ''tB''] ''tB'') = Inr (Next (Some ''tB''))"
    by (simp add: proxy_write_def hset_on_missing [OF dead])
  have rt: "sample_parse (sample_stringify (JArr [JStr ''tokA'', JStr ''tB'']))
              = Some (JArr [JStr ''tokA'', JStr ''tB''])"
    by (simp add: sample_parse_def)
  have ne: "sample_stringify (JArr [JStr ''tokA'', JStr ''tB'']) \<noteq> []"
    by simp
  have 5: "proxy sample_parse sample_stringify rewritten_room ''/room/r1'' None ''tC''
       = (rewritten_room, Inr (Redirect ''/?error=room-full''))"
    using rewritten_room_live rt ne
    by (simp add: proxy_def proxy_read_def room_match_def redis_hgetall_def proxy_connected_def
        meta_key_def del: sample_stringify.simps)
  have 6: "route_guard sample_parse rewritten_room (Some ''r1'') (Some ''tokA'')
       = Inr \<lparr>roomId = ''r1'', token = ''tokA'', connected = [JStr ''tokA'', JStr ''tB'']\<rparr>"
    using rewritten_room_live rt ne
    by (simp add: route_guard_def authMiddleware_def redis_hget_def auth_connected_def
        includes_token_def meta_key_def del: sample_stringify.simps)
  have 7: "redis_ttl rewritten_room (meta_key ''r1'') = - 1"
    by (simp add: redis_ttl_def rewritten_room_live)
  from 1 2 3 4 5 6 7 show ?thesis
    by (intro conjI)
qed


section \<open>Listing\<close>

text \<open>
  Claim C5. When the log can be read, listing succeeds, whatever the entries are. What it
  returns corresponds, one to one and in the order of the log, to the entries that decode:
  an entry that fails to decode is left out and the others keep their places. Each
  returned message has its \<^verbatim>\<open>token\<close> equal to the requester's token when the stored
  message's token is the requester's, and \<^verbatim>\<open>undefined\<close> otherwise, and every other
  property as stored.
\<close>

theorem messages_get_redacts:
  assumes "redis_lrange w (messages_key (roomId auth)) = Inr raws"
  shows "\<exists>shown. messages_get parse w auth = Inr shown
           \<and> list_all2 (redacted (token auth)) (List.map_filter (decode_entry parse) raws) shown"
  using assms listing_rel [of auth parse raws]
  by (simp add: messages_get_def)

theorem messages_get_redacts_witness:
  "redis_lrange sample_room (messages_key (roomId sample_session)) =
     Inr [Message ''m1'' ''alice'' ''hi'' 1700000001000 ''r1'' ''tokA'',
          JStr ''oops'',
          Message ''m2'' ''bob'' ''yo'' 1700000002000 ''r1'' ''tokB'',
          JNum 7]
   \<and> messages_get sample_parse sample_room sample_session =
       Inr [JObj [(''id'', JStr ''m1''), (''sender'', JStr ''alice''), (''text'', JStr ''hi''),
                  (''timestamp'', JNum 1700000001000), (''roomId'', JStr ''r1''),
                  (''token'', JStr ''tokA'')],
            JObj [(''id'', JStr ''m2''), (''sender'', JStr ''bob''), (''text'', JStr ''yo''),
                  (''timestamp'', JNum 1700000002000), (''roomId'', JStr ''r1''),
                  (''token'', JUndefined)]]"
  using messages_get_redacts [OF sample_log, of sample_parse] sample_log sample_listing
  by simp

section \<open>The capacity check\<close>

text \<open>
  An admission that finds the list at capacity changes nothing, and an admission never
  writes more than two entries. So, with a printer whose arrays the parser reads back, no
  order of reads, writes and pauses makes a stored membership list longer than two.
\<close>

lemma proxy_at_capacity:
  assumes "room_match p = Some r"
    and "redis_hgetall w (meta_key r) = Inr (Some meta)"
    and "2 \<le> length (proxy_connected parse
                 (case map_of meta ''connected'' of None \<Rightarrow> JUndefined | Some v \<Rightarrow> v))"
    and "c = None \<or> (\<exists>t. c = Some t \<and> \<not> includes_token (proxy_connected parse
                 (case map_of meta ''connected'' of None \<Rightarrow> JUndefined | Some v \<Rightarrow> v)) t)"
  shows "proxy parse stringify w p c n = (w, Inr (Redirect ''/?error=room-full''))"
  using assms by (auto simp add: proxy_def proxy_read_def)

lemma proxy_read_writes_at_most_two:
  assumes "proxy_read parse w p c n = Writing r u t"
  shows "length u \<le> 2"
proof (cases "room_match p")
  case None
  with assms show ?thesis by (simp add: proxy_read_def)
next
  case (Some r')
  show ?thesis
  proof (cases "redis_hgetall w (meta_key r')")
    case (Inl e)
    with assms Some show ?thesis by (simp add: proxy_read_def)
  next
    case (Inr m)
    show ?thesis
    proof (cases m)
      case None
      with assms Some Inr show ?thesis by (simp add: proxy_read_def)
    next
      case (Some meta)
      with assms \<open>room_match p = Some r'\<close> Inr show ?thesis
        by (auto simp add: proxy_read_def Let_def split: if_splits)
    qed
  qed
qed

lemma proxy_write_within_cap:
  assumes rt: "\<And>u. parse (stringify (JArr u)) = Some (JArr u)"
    and inv: "\<forall>k e h v. live w k = Some e \<longrightarrow> content e = RHash h \<longrightarrow>
                map_of h ''connected'' = Some v \<longrightarrow> length (proxy_connected parse v) \<le> 2"
    and u: "length u \<le> 2"
  shows "\<forall>k e h v. live (fst (proxy_write stringify w r u t)) k = Some e \<longrightarrow> content e = RHash h \<longrightarrow>
                map_of h ''connected'' = Some v \<longrightarrow> length (proxy_connected parse v) \<le> 2"
proof (cases "redis_hset w (meta_key r) [(''connected'', JStr (stringify (JArr u)))]")
  case (Inl e)
  then show ?thesis using inv by (simp add: proxy_write_def)
next
  case (Inr w1)
  have dec: "length (proxy_connected parse (JStr (stringify (JArr u)))) \<le> 2"
    using u by (simp add: proxy_connected_def rt)
  have w1: "fst (proxy_write stringify w r u t) = w1"
    using Inr by (simp add: proxy_write_def)
  show ?thesis
    unfolding w1
  proof (intro allI impI)
    fix k e h v
    assume l: "live w1 k = Some e" and c: "content e = RHash h"
      and m: "map_of h ''connected'' = Some v"
    show "length (proxy_connected parse v) \<le> 2"
    proof (cases "k = meta_key r")
      case False
      with hset_result(4) [OF Inr, of k] l have "live w k = Some e" by simp
      with c m inv show ?thesis by blast
    next
      case True
      show ?thesis
      proof (cases "live w (meta_key r)")
        case None
        from hset_result(6) [OF Inr None] l c m True dec show ?thesis
          by (auto simp add: update_conv' split: if_splits)
      next
        case (Some e0)
        from hset_result(5) [OF Inr Some] l c m True dec show ?thesis
          by (auto simp add: update_conv' split: if_splits)
      qed
    qed
  qed
qed

lemma live_tick:
  "live (w\<lparr>clock := clock w + n\<rparr>) k = Some e \<Longrightarrow> live w k = Some e"
  by (auto simp add: live_def split: option.splits if_splits)

lemma run_within_cap:
  assumes rt: "\<And>u. parse (stringify (JArr u)) = Some (JArr u)"
  shows "(\<forall>k e h v. live w k = Some e \<longrightarrow> content e = RHash h \<longrightarrow>
                map_of h ''connected'' = Some v \<longrightarrow> length (proxy_connected parse v) \<le> 2) \<Longrightarrow>
         (\<forall>r u t. Some (Writing r u t) \<in> set ps \<longrightarrow> length u \<le> 2) \<Longrightarrow>
         (\<forall>k e h v. live (fst (run parse stringify reqs es (w, ps))) k = Some e \<longrightarrow>
                content e = RHash h \<longrightarrow> map_of h ''connected'' = Some v \<longrightarrow>
                length (proxy_connected parse v) \<le> 2)"
proof (induction es arbitrary: w ps)
  case Nil
  then show ?case by simp
next
  case (Cons ev es)
  show ?case
  proof (cases ev)
    case (Tick n)
    have "\<forall>k e h v. live (w\<lparr>clock := clock w + n\<rparr>) k = Some e \<longrightarrow> content e = RHash h \<longrightarrow>
                map_of h ''connected'' = Some v \<longrightarrow> length (proxy_connected parse v) \<le> 2"
      using Cons.prems(1) live_tick by blast
    from Cons.IH [OF this Cons.prems(2)] show ?thesis
      by (simp add: Tick)
  next
    case (Step i)
    obtain w1 ps1 where st: "proxy_step parse stringify reqs i (w, ps) = (w1, ps1)"
      by (cases "proxy_step parse stringify reqs i (w, ps)") auto
    have "(\<forall>k e h v. live w1 k = Some e \<longrightarrow> content e = RHash h \<longrightarrow>
                map_of h ''connected'' = Some v \<longrightarrow> length (proxy_connected parse v) \<le> 2)
          \<and> (\<forall>r u t. Some (Writing r u t) \<in> set ps1 \<longrightarrow> length u \<le> 2)"
    proof (cases "i < length reqs \<and> i < length ps")
      case False
      with st Cons.prems show ?thesis by (auto simp add: proxy_step_def)
    next
      case True
      show ?thesis
      proof (cases "ps ! i")
        case None
        obtain p c n where rq: "reqs ! i = (p, c, n)"
          by (cases "reqs ! i") auto
        from st True None rq have eq: "w1 = w" "ps1 = ps[i := Some (proxy_read parse w p c n)]"
          by (auto simp add: proxy_step_def)
        have "\<forall>r u t. Some (Writing r u t) \<in> set ps1 \<longrightarrow> length u \<le> 2"
        proof (intro allI impI)
          fix r u t
          assume "Some (Writing r u t) \<in> set ps1"
          then have "Some (Writing r u t) \<in> insert (Some (proxy_read parse w p c n)) (set ps)"
            using set_update_subset_insert [of ps i] eq(2) by blast
          then show "length u \<le> 2"
            using Cons.prems(2) proxy_read_writes_at_most_two [of parse w p c n r u t] by auto
        qed
        with eq Cons.prems(1) show ?thesis by simp
      next
        case (Some x)
        show ?thesis
        proof (cases x)
          case (Writing r u t)
          have mem: "Some (Writing r u t) \<in> set ps"
            using True Some Writing nth_mem [of i ps] by simp
          then have u: "length u \<le> 2"
            using Cons.prems(2) by blast
          have w1: "w1 = fst (proxy_write stringify w r u t)"
            using st True Some Writing
            by (auto simp add: proxy_step_def split: prod.splits sum.splits)
          have "\<exists>y. ps1 = ps[i := Some y] \<and> (\<forall>r u t. y \<noteq> Writing r u t)"
            using st True Some Writing
            by (auto simp add: proxy_step_def split: prod.splits sum.splits)
          then obtain y where ps1: "ps1 = ps[i := Some y]" and y: "\<forall>r u t. y \<noteq> Writing r u t"
            by blast
          have "\<forall>r u t. Some (Writing r u t) \<in> set ps1 \<longrightarrow> length u \<le> 2"
          proof (intro allI impI)
            fix r' u' t'
            assume "Some (Writing r' u' t') \<in> set ps1"
            then have "Some (Writing r' u' t') \<in> insert (Some y) (set ps)"
              using set_update_subset_insert [of ps i] ps1 by blast
            then show "length u' \<le> 2"
              using Cons.prems(2) y by auto
          qed
          with proxy_write_within_cap [OF rt Cons.prems(1) u, of r t] w1 show ?thesis
            by simp
        next
          case (Responded x1)
          with st True Some Cons.prems show ?thesis by (simp add: proxy_step_def)
        next
          case (Thrown x2)
          with st True Some Cons.prems show ?thesis by (simp add: proxy_step_def)
        qed
      qed
    qed
    with Cons.IH [of w1 ps1] show ?thesis
      by (simp add: Step st)
  qed
qed


section \<open>Ten admissions at once\<close>

text \<open>
  Taken in turn, three admissions to a fresh room end as intended: two visitors get a
  token and the third is turned away.
\<close>

lemma three_admissions_in_turn:
  "snd (run sample_parse sample_stringify
          [(''/room/r1'', None, ''t0''), (''/room/r1'', None, ''t1''), (''/room/r1'', None, ''t2'')]
          [Step 0, Step 0, Step 1, Step 1, Step 2, Step 2]
          (fresh_room, [None, None, None]))
     = [Some (Responded (Next (Some ''t0''))), Some (Responded (Next (Some ''t1''))),
        Some (Responded (Redirect ''/?error=room-full''))]"
  by (simp add: proxy_step_def proxy_read_def proxy_write_def room_match_def redis_hgetall_def
      redis_hset_def live_def fresh_room_eq meta_key_def proxy_connected_def sample_parse_def
      includes_token_def Let_def list_update_Cons_numeral)

text \<open>
  Claim C1, at the input where the code departs from it. Ten visitors without a cookie
  ask for a fresh room; each request reads the membership before any of them writes.
  All ten are let through with a new cookie, none is redirected with \<^verbatim>\<open>room-full\<close>, and
  the membership field ends as the text of the one-element array of the last writer.
\<close>

theorem ten_admissions_race:
  "snd (run sample_parse sample_stringify ten_requests (ten_steps @ ten_steps)
          (fresh_room, [None, None, None, None, None, None, None, None, None, None]))
     = [Some (Responded (Next (Some ''t0''))), Some (Responded (Next (Some ''t1''))),
        Some (Responded (Next (Some ''t2''))), Some (Responded (Next (Some ''t3''))),
        Some (Responded (Next (Some ''t4''))), Some (Responded (Next (Some ''t5''))),
        Some (Responded (Next (Some ''t6''))), Some (Responded (Next (Some ''t7''))),
        Some (Responded (Next (Some ''t8''))), Some (Responded (Next (Some ''t9'')))]
   \<and> redis_hget (fst (run sample_parse sample_stringify ten_requests (ten_steps @ ten_steps)
          (fresh_room, [None, None, None, None, None, None, None, None, None, None])))
        (meta_key ''r1'') ''connected''
     = Inr (JStr (sample_stringify (JArr [JStr ''t9''])))
   \<and> proxy_connected sample_parse (JStr (sample_stringify (JArr [JStr ''t9'']))) = [JStr ''t9'']"
  by (simp only: run_append ten_reads ten_writes)
     (simp add: redis_hget_def live_def meta_key_def fresh_room_eq proxy_connected_def
        sample_parse_def)


section \<open>The room's lifetime under activity\<close>

text \<open>
  What holds of the single commands: creation gives the metadata key 600 seconds, posting
  leaves the metadata key alone, and an admission that runs alone on a room that exists
  leaves the key's expiry as it was.
\<close>

lemma room_create_ttl:
  assumes "room_create stringify w r now = (w', Inr r')"
  shows "redis_ttl w' (meta_key r) = 600 \<and> r' = r"
proof (cases "redis_hset w (meta_key r)
             [(''connected'', JStr (stringify (JArr []))), (''createdAt'', JStr (decimal now))]")
  case (Inl e)
  with assms show ?thesis by (simp add: room_create_def)
next
  case (Inr w1)
  with assms have w': "w' = redis_expire w1 (meta_key r) ROOM_TTL_SECONDS" and r': "r' = r"
    by (auto simp add: room_create_def)
  have "live w1 (meta_key r) \<noteq> None"
    using hset_result(5,6) [OF Inr] by (cases "live w (meta_key r)") auto
  then show ?thesis
    using hset_result(1) [OF Inr]
    by (auto simp add: w' r' redis_ttl_def live_expire ROOM_TTL_SECONDS_def)
qed

lemma messages_post_keeps_meta:
  "kv (fst (messages_post stringify w auth b n now)) (meta_key (roomId auth))
     = kv w (meta_key (roomId auth))"
proof (cases "snd (messages_post stringify w auth b n now)")
  case (Inl e)
  then have "fst (messages_post stringify w auth b n now) = w"
    by (auto simp add: messages_post_def Let_def split: option.splits sum.splits if_splits)
  then show ?thesis by simp
next
  case (Inr m)
  then obtain sd tx w1 where
    push: "redis_rpush w (messages_key (roomId auth))
             (JStr (stringify (Message n sd tx now (roomId auth) (token auth)))) = Inr w1"
    and res: "fst (messages_post stringify w auth b n now) =
       redis_expire (redis_expire (redis_expire
          (emit w1 (roomId auth) ''chat.message'' (Message n sd tx now (roomId auth) (token auth)))
          (messages_key (roomId auth))
          (redis_ttl (emit w1 (roomId auth) ''chat.message''
                        (Message n sd tx now (roomId auth) (token auth))) (meta_key (roomId auth))))
          (history_key (roomId auth))
          (redis_ttl (emit w1 (roomId auth) ''chat.message''
                        (Message n sd tx now (roomId auth) (token auth))) (meta_key (roomId auth))))
          (roomId auth)
          (redis_ttl (emit w1 (roomId auth) ''chat.message''
                        (Message n sd tx now (roomId auth) (token auth))) (meta_key (roomId auth)))"
    by (auto simp add: messages_post_def Let_def split: option.splits sum.splits if_splits)
  show ?thesis
    using rpush_result(3) [OF push, of "meta_key (roomId auth)"]
    by (simp add: res kv_expire_other kv_emit_other)
qed

lemma proxy_keeps_deadline:
  assumes "room_match p = Some r"
    and "live w (meta_key r) = Some e"
  shows "\<exists>e'. live (fst (proxy parse stringify w p c n)) (meta_key r) = Some e'
              \<and> deadline e' = deadline e"
proof (cases "proxy_read parse w p c n")
  case (Responded x)
  then show ?thesis using assms by (simp add: proxy_def)
next
  case (Thrown x)
  then show ?thesis using assms by (simp add: proxy_def)
next
  case (Writing r' u t)
  then have r': "r' = r"
    using assms
    by (auto simp add: proxy_read_def Let_def split: option.splits sum.splits if_splits)
  show ?thesis
  proof (cases "redis_hset w (meta_key r) [(''connected'', JStr (stringify (JArr u)))]")
    case (Inl x)
    then show ?thesis using assms Writing r' by (simp add: proxy_def proxy_write_def)
  next
    case (Inr w1)
    from hset_result(5) [OF Inr assms(2)] show ?thesis
      using Writing r' Inr by (auto simp add: proxy_def proxy_write_def)
  qed
qed

lemma sample_round_trip:
  "sample_parse (sample_stringify (JArr [JStr ''t0''])) = Some (JArr [JStr ''t0''])"
  by (simp add: sample_parse_def)

lemma late_run:
  "run sample_parse sample_stringify [(''/room/r1'', None, ''t0'')] late_schedule (fresh_room, [None])
     = (\<lparr>kv = [''meta:r1'' \<mapsto>
                  \<lparr>content = RHash [(''connected'', JStr (sample_stringify (JArr [JStr ''t0''])))],
                   deadline = None\<rparr>],
         clock = 1801,
         effects = effects fresh_room @
           [HSet ''meta:r1'' [(''connected'', JStr (sample_stringify (JArr [JStr ''t0''])))]]\<rparr>,
        [Some (Responded (Next (Some ''t0'')))])"
proof -
  have r: "proxy_read sample_parse (fresh_room\<lparr>clock := 599\<rparr>) ''/room/r1'' None ''t0''
             = Writing ''r1'' [JStr ''t0''] ''t0''"
    by (rule fresh_read) simp_all
  have w: "proxy_write sample_stringify (fresh_room\<lparr>clock := 601\<rparr>) ''r1'' [JStr ''t0''] ''t0''
     = (fresh_room\<lparr>clock := 601,
          effects := effects fresh_room @
            [HSet (meta_key ''r1'') [(''connected'', JStr (sample_stringify (JArr [JStr ''t0''])))]],
          kv := (kv fresh_room)(meta_key ''r1'' \<mapsto>
                \<lparr>content = RHash [(''connected'', JStr (sample_stringify (JArr [JStr ''t0''])))],
                 deadline = None\<rparr>)\<rparr>,
      Inr (Next (Some ''t0'')))"
    by (simp add: proxy_write_def redis_hset_def live_def fresh_room_eq meta_key_def Let_def)
  have c: "clock fresh_room = 0"
    by (simp add: fresh_room_eq)
  show ?thesis
    apply (simp only: late_schedule_def run.simps)
    apply (simp add: step_read step_write c r w)
    apply (simp add: fresh_room_eq meta_key_def)
    done
qed

text \<open>
  Claim C10, at the input where the code departs from it. A room is created at instant 0
  with 600 seconds to live. A visitor's admission reads the metadata at instant 599 and
  writes the new membership at instant 601, after the key has expired: the write creates
  the key anew, without expiry. At instant 1801 the metadata key exists, the store reports
  no expiry for it, and the visitor's token authenticates.
\<close>

theorem late_admission_outlives_expiry:
  "redis_ttl fresh_room (meta_key ''r1'') = 600
   \<and> snd (run sample_parse sample_stringify [(''/room/r1'', None, ''t0'')] late_schedule
            (fresh_room, [None]))
       = [Some (Responded (Next (Some ''t0'')))]
   \<and> clock (fst (run sample_parse sample_stringify [(''/room/r1'', None, ''t0'')] late_schedule
            (fresh_room, [None]))) = 1801
   \<and> redis_exists (fst (run sample_parse sample_stringify [(''/room/r1'', None, ''t0'')] late_schedule
            (fresh_room, [None]))) (meta_key ''r1'')
   \<and> redis_ttl (fst (run sample_parse sample_stringify [(''/room/r1'', None, ''t0'')] late_schedule
            (fresh_room, [None]))) (meta_key ''r1'') = - 1
   \<and> authMiddleware sample_parse
        (fst (run sample_parse sample_stringify [(''/room/r1'', None, ''t0'')] late_schedule
            (fresh_room, [None]))) (Some ''r1'') (Some ''t0'')
       = Inr \<lparr>roomId = ''r1'', token = ''t0'', connected = [JStr ''t0'']\<rparr>"
  apply (simp only: late_run)
  apply (simp add: redis_ttl_def redis_exists_def live_def meta_key_def fresh_room_eq
      authMiddleware_def redis_hget_def auth_connected_def includes_token_def sample_parse_def)
  done


section \<open>Posting to a room that lost its expiry\<close>

lemma late_room_eq:
  "late_room =
     \<lparr>kv = [''meta:r1'' \<mapsto>
                  \<lparr>content = RHash [(''connected'', JStr (sample_stringify (JArr [JStr ''t0''])))],
                   deadline = None\<rparr>],
         clock = 1801,
         effects = effects fresh_room @
           [HSet ''meta:r1'' [(''connected'', JStr (sample_stringify (JArr [JStr ''t0''])))]]\<rparr>"
  by (simp only: late_room_def late_run fst_conv)

lemma late_room_live:
  "live late_room k =
     (if k = ''meta:r1''
      then Some \<lparr>content = RHash [(''connected'', JStr (sample_stringify (JArr [JStr ''t0''])))],
                 deadline = None\<rparr>
      else None)"
  by (simp add: late_room_eq live_def)

text \<open>
  Claim C4, at the input where the code departs from it. The room is the one the late
  admission above left: it exists, its metadata key has no expiry, and its visitor holds a
  valid session. The visitor posts. The handler answers with the fully populated message,
  having appended it and emitted it; but the store's answer for the metadata key's
  remaining lifetime is the sentinel -1, the handler passes it on, and \<^verbatim>\<open>EXPIRE\<close> with -1
  deletes the key it is given. After the post the log does not exist, and neither does the
  channel's key: the message just appended is gone.
\<close>

theorem post_on_room_without_expiry:
  "route_guard sample_parse late_room (Some ''r1'') (Some ''t0'') = Inr late_session
   \<and> redis_exists late_room (meta_key ''r1'')
   \<and> redis_ttl late_room (meta_key ''r1'') = - 1
   \<and> redis_lrange late_room (messages_key ''r1'') = Inr []
   \<and> snd (messages_post sample_stringify late_room late_session sample_body ''m1'' 1700001801000)
       = Inr (JObj [(''id'', JStr ''m1''), (''sender'', JStr ''alice''), (''text'', JStr ''hi''),
                    (''timestamp'', JNum 1700001801000), (''roomId'', JStr ''r1''),
                    (''token'', JStr ''t0'')])
   \<and> redis_lrange
        (fst (messages_post sample_stringify late_room late_session sample_body ''m1'' 1700001801000))
        (messages_key ''r1'') = Inr []
   \<and> \<not> redis_exists
        (fst (messages_post sample_stringify late_room late_session sample_body ''m1'' 1700001801000))
        (messages_key ''r1'')
   \<and> \<not> redis_exists
        (fst (messages_post sample_stringify late_room late_session sample_body ''m1'' 1700001801000))
        ''r1''
   \<and> effects
        (fst (messages_post sample_stringify late_room late_session sample_body ''m1'' 1700001801000))
       = effects late_room @
         [RPush ''messages:r1''
            (JStr (sample_stringify
               (JObj [(''id'', JStr ''m1''), (''sender'', JStr ''alice''), (''text'', JStr ''hi''),
                      (''timestamp'', JNum 1700001801000), (''roomId'', JStr ''r1''),
                      (''token'', JStr ''t0'')]))),
          Emit ''r1'' ''chat.message''
            (JObj [(''id'', JStr ''m1''), (''sender'', JStr ''alice''), (''text'', JStr ''hi''),
                   (''timestamp'', JNum 1700001801000), (''roomId'', JStr ''r1''),
                   (''token'', JStr ''t0'')]),
          Expire ''messages:r1'' (- 1), Expire ''history:r1'' (- 1), Expire ''r1'' (- 1)]"
proof -
  let ?msg = "JObj [(''id'', JStr ''m1''), (''sender'', JStr ''alice''), (''text'', JStr ''hi''),
                    (''timestamp'', JNum 1700001801000), (''roomId'', JStr ''r1''),
                    (''token'', JStr ''t0'')]"
  have guard: "route_guard sample_parse late_room (Some ''r1'') (Some ''t0'') = Inr late_session"
    by (simp add: route_guard_def authMiddleware_def redis_hget_def late_room_live meta_key_def
        auth_connected_def sample_parse_def includes_token_def late_session_def)
  have ex: "redis_exists late_room (meta_key ''r1'')"
    by (simp add: redis_exists_def late_room_live meta_key_def)
  have ttl: "redis_ttl late_room (meta_key ''r1'') = - 1"
    by (simp add: redis_ttl_def late_room_live meta_key_def)
  have before: "redis_lrange late_room (messages_key ''r1'') = Inr []"
    by (simp add: redis_lrange_def late_room_live messages_key_def)
  have dead: "live late_room (messages_key ''r1'') = None"
    by (simp add: late_room_live messages_key_def)
  from rpush_on_missing [OF dead, of "JStr (sample_stringify ?msg)"]
  obtain w1 where push: "redis_rpush late_room (messages_key ''r1'') (JStr (sample_stringify ?msg)) = Inr w1"
    by blast
  note r = rpush_result [OF push]
  have meta1: "live w1 (meta_key ''r1'') = live late_room (meta_key ''r1'')"
    using r(4) [of "meta_key ''r1''"] by simp
  have ttl2: "redis_ttl (emit w1 ''r1'' ''chat.message'' ?msg) (meta_key ''r1'') = - 1"
    using meta1 by (simp add: redis_ttl_def late_room_live) (simp add: meta_key_def)
  have res: "messages_post sample_stringify late_room late_session sample_body ''m1'' 1700001801000
       = (redis_expire (redis_expire (redis_expire (emit w1 ''r1'' ''chat.message'' ?msg)
            (messages_key ''r1'') (- 1)) (history_key ''r1'') (- 1)) ''r1'' (- 1), Inr ?msg)"
    using ex push ttl2
    by (simp add: messages_post_def body_schema_def sample_body_def late_session_def Let_def
        Message_def)
  have after: "\<And>k. k = messages_key ''r1'' \<or> k = ''r1'' \<Longrightarrow>
     live (redis_expire (redis_expire (redis_expire (emit w1 ''r1'' ''chat.message'' ?msg)
            (messages_key ''r1'') (- 1)) (history_key ''r1'') (- 1)) ''r1'' (- 1)) k = None"
    by (auto simp add: live_expire split: option.splits)
  have eff: "effects (redis_expire (redis_expire (redis_expire (emit w1 ''r1'' ''chat.message'' ?msg)
            (messages_key ''r1'') (- 1)) (history_key ''r1'') (- 1)) ''r1'' (- 1))
      = effects late_room @
         [RPush (messages_key ''r1'') (JStr (sample_stringify ?msg)),
          Emit ''r1'' ''chat.message'' ?msg,
          Expire (messages_key ''r1'') (- 1), Expire (history_key ''r1'') (- 1), Expire ''r1'' (- 1)]"
    by (simp add: r(2))
  have a1: "live (fst (messages_post sample_stringify late_room late_session sample_body ''m1''
                   1700001801000)) (messages_key ''r1'') = None"
    and a2: "live (fst (messages_post sample_stringify late_room late_session sample_body ''m1''
                   1700001801000)) ''r1'' = None"
    by (simp_all add: res after)
  have a3: "effects (fst (messages_post sample_stringify late_room late_session sample_body ''m1''
                   1700001801000))
      = effects late_room @
         [RPush (messages_key ''r1'') (JStr (sample_stringify ?msg)),
          Emit ''r1'' ''chat.message'' ?msg,
          Expire (messages_key ''r1'') (- 1), Expire (history_key ''r1'') (- 1), Expire ''r1'' (- 1)]"
    by (simp only: res fst_conv eff)
  have a4: "snd (messages_post sample_stringify late_room late_session sample_body ''m1''
                   1700001801000) = Inr ?msg"
    by (simp only: res snd_conv)
  from guard ex ttl before a1 a2 a3 a4 show ?thesis
    by (simp add: redis_lrange_def redis_exists_def messages_key_def history_key_def)
qed


end
